theory Spec2Isabelle
  imports Complex_Main "HOL-Library.Sublist" "HOL-Library.Multiset"
begin

unbundle bit_operations_syntax

section \<open>SHA-256 (the function behind \<^verbatim>\<open>hashlib.sha256(...).hexdigest()\<close>)\<close>

text \<open>
  \<^verbatim>\<open>PyCap._hash\<close> calls the standard library's SHA-256. The library code is not part of
  the repository; the function is written out here after FIPS 180-4 so that digests of
  concrete strings can be computed. 32-bit words are integers in \<open>[0, 2^32)\<close> with the
  wrap-around written out (\<open>w32\<close>). A \<open>string\<close> stands for the UTF-8 bytes of the Python
  string, which is what \<^verbatim>\<open>s.encode("utf-8")\<close> hands to the hash.
\<close>

definition w32 :: "int \<Rightarrow> int" where
  "w32 x = x mod 4294967296"

definition rotr :: "nat \<Rightarrow> int \<Rightarrow> int" where
  "rotr n x = x div 2 ^ n + (x mod 2 ^ n) * 2 ^ (32 - n)"

definition not32 :: "int \<Rightarrow> int" where
  "not32 x = 4294967295 - x"

definition Ch :: "int \<Rightarrow> int \<Rightarrow> int \<Rightarrow> int" where
  "Ch x y z = (x AND y) XOR (not32 x AND z)"

definition Maj :: "int \<Rightarrow> int \<Rightarrow> int \<Rightarrow> int" where
  "Maj x y z = (x AND y) XOR (x AND z) XOR (y AND z)"

definition bsig0 :: "int \<Rightarrow> int" where
  "bsig0 x = rotr 2 x XOR rotr 13 x XOR rotr 22 x"

definition bsig1 :: "int \<Rightarrow> int" where
  "bsig1 x = rotr 6 x XOR rotr 11 x XOR rotr 25 x"

definition ssig0 :: "int \<Rightarrow> int" where
  "ssig0 x = rotr 7 x XOR rotr 18 x XOR (x div 2 ^ 3)"

definition ssig1 :: "int \<Rightarrow> int" where
  "ssig1 x = rotr 17 x XOR rotr 19 x XOR (x div 2 ^ 10)"

text \<open>
  The round constants: the first 32 bits of the fractional parts of the cube roots of the
  first 64 primes. The initial hash value: the same of the square roots of the first 8.
\<close>

definition K256 :: "int list" where
  "K256 = [
    1116352408, 1899447441, 3049323471, 3921009573,
    961987163, 1508970993, 2453635748, 2870763221,
    3624381080, 310598401, 607225278, 1426881987,
    1925078388, 2162078206, 2614888103, 3248222580,
    3835390401, 4022224774, 264347078, 604807628,
    770255983, 1249150122, 1555081692, 1996064986,
    2554220882, 2821834349, 2952996808, 3210313671,
    3336571891, 3584528711, 113926993, 338241895,
    666307205, 773529912, 1294757372, 1396182291,
    1695183700, 1986661051, 2177026350, 2456956037,
    2730485921, 2820302411, 3259730800, 3345764771,
    3516065817, 3600352804, 4094571909, 275423344,
    430227734, 506948616, 659060556, 883997877,
    958139571, 1322822218, 1537002063, 1747873779,
    1955562222, 2024104815, 2227730452, 2361852424,
    2428436474, 2756734187, 3204031479, 3329325298]"

definition H256 :: "int list" where
  "H256 = [1779033703, 3144134277, 1013904242, 2773480762,
           1359893119, 2600822924, 528734635, 1541459225]"

text \<open>The message schedule is kept newest word first: \<open>ws ! 1\<close> is \<open>W[t-2]\<close>.\<close>

fun schedule :: "nat \<Rightarrow> int list \<Rightarrow> int list" where
  "schedule 0 ws = ws"
| "schedule (Suc n) ws =
     schedule n (w32 (ssig1 (ws ! 1) + ws ! 6 + ssig0 (ws ! 14) + ws ! 15) # ws)"

fun round256 :: "int list \<Rightarrow> int \<times> int \<Rightarrow> int list" where
  "round256 [a, b, c, d, e, f, g, h] (k, w) =
     (let t1 = h + bsig1 e + Ch e f g + k + w;
          t2 = bsig0 a + Maj a b c
      in [w32 (t1 + t2), a, b, c, w32 (d + t1), e, f, g])"
| "round256 st _ = st"

definition compress :: "int list \<Rightarrow> int list \<Rightarrow> int list" where
  "compress hs block =
     map2 (\<lambda>x y. w32 (x + y)) hs
       (foldl round256 hs (zip K256 (rev (schedule 48 (rev block)))))"

definition be_int :: "int list \<Rightarrow> int" where
  "be_int bs = foldl (\<lambda>acc b. acc * 256 + b) 0 bs"

fun chunks :: "nat \<Rightarrow> 'a list \<Rightarrow> 'a list list" where
  "chunks n [] = []"
| "chunks n xs = (if n = 0 then [xs] else take n xs # chunks n (drop n xs))"

definition be_bytes :: "nat \<Rightarrow> int \<Rightarrow> int list" where
  "be_bytes n v = map (\<lambda>i. (v div 256 ^ i) mod 256) (rev [0..<n])"

definition pad :: "int list \<Rightarrow> int list" where
  "pad bs = bs @ [128] @ replicate ((119 - length bs mod 64) mod 64) 0
              @ be_bytes 8 (8 * int (length bs))"

definition sha256_words :: "int list \<Rightarrow> int list" where
  "sha256_words bs = foldl compress H256 (chunks 16 (map be_int (chunks 4 (pad bs))))"

definition hex_digit :: "int \<Rightarrow> char" where
  "hex_digit n = ''0123456789abcdef'' ! nat n"

definition hex32 :: "int \<Rightarrow> string" where
  "hex32 w = map (\<lambda>i. hex_digit ((w div 16 ^ i) mod 16)) (rev [0..<8])"

definition sha256_hex :: "string \<Rightarrow> string" where
  "sha256_hex s = concat (map hex32 (sha256_words (map of_char s)))"


section \<open>pycap.py\<close>

text \<open>
  The dataclass \<^verbatim>\<open>Challenge\<close>. Timestamps are Python floats (seconds, as \<^verbatim>\<open>time.time()\<close>
  returns them); they are real numbers here, and only compared and added.
\<close>

record Challenge =
  challenge :: string
  difficulty :: int
  expires_at :: real

text \<open>The instance attributes \<^verbatim>\<open>_difficulty\<close> and \<^verbatim>\<open>_ttl\<close> of class \<^verbatim>\<open>PyCap\<close>.\<close>

record PyCap =
  cap_difficulty :: int
  cap_ttl :: int

text \<open>
  \<^verbatim>\<open>issue\<close> reads \<^verbatim>\<open>secrets.token_hex(16)\<close> and \<^verbatim>\<open>time.time()\<close>; both are arguments here.
  The sum \<^verbatim>\<open>time.time() + self._ttl\<close> is rounded to a double in Python and exact here; the one
  value of it used below is \<open>0 + 180\<close>, which a double holds exactly.
\<close>

definition issue :: "PyCap \<Rightarrow> string \<Rightarrow> real \<Rightarrow> Challenge" where
  "issue self token now =
     \<lparr>challenge = token, difficulty = cap_difficulty self,
      expires_at = now + real_of_int (cap_ttl self)\<rparr>"

definition PyCap_hash :: "string \<Rightarrow> string" where
  "PyCap_hash s = sha256_hex s"

text \<open>
  \<^verbatim>\<open>verify\<close>, with the hash it calls as an argument and the clock reading \<open>now\<close>.
  \<^verbatim>\<open>"0" * d\<close> is the empty string for \<open>d \<le> 0\<close>, as \<open>replicate (nat d)\<close> is.
\<close>

definition verify_with :: "(string \<Rightarrow> string) \<Rightarrow> Challenge \<Rightarrow> string \<Rightarrow> real \<Rightarrow> bool \<times> string" where
  "verify_with hash ch nonce now =
     (if now > expires_at ch then (False, ''Challenge expired'')
      else
        let digest = hash (challenge ch @ '':'' @ nonce)
        in if \<not> prefix (replicate (nat (difficulty ch)) CHR ''0'') digest
           then (False, ''Insufficient PoW difficulty'')
           else (True, ''ok''))"

definition verify :: "Challenge \<Rightarrow> string \<Rightarrow> real \<Rightarrow> bool \<times> string" where
  "verify ch nonce now = verify_with PyCap_hash ch nonce now"

section \<open>server.py: the challenge store and verification\<close>

text \<open>
  One entry of \<^verbatim>\<open>ACTIVE_CHALLENGES\<close>: the dict with the keys \<^verbatim>\<open>"correct_ids"\<close>,
  \<^verbatim>\<open>"pow_challenge"\<close> and \<^verbatim>\<open>"difficulty"\<close> (the last one is \<open>rec_difficulty\<close> here, since
  \<open>difficulty\<close> is already the field of \<open>Challenge\<close>).
\<close>

record puzzle =
  correct_ids :: "string set"
  pow_challenge :: string
  rec_difficulty :: int

type_synonym store = "string \<rightharpoonup> puzzle"

text \<open>
  \<^verbatim>\<open>DEFAULT_DIFFICULTY\<close> is 5 in the source. The functions of the module that read it are
  written for an arbitrary value \<open>d\<close> of that constant (names ending in \<open>_at\<close>); their
  instances at \<open>DEFAULT_DIFFICULTY\<close> carry the names of the source.
\<close>

definition DEFAULT_DIFFICULTY :: int where
  "DEFAULT_DIFFICULTY = 5"

definition PY_CAP_at :: "int \<Rightarrow> PyCap" where
  "PY_CAP_at d = \<lparr>cap_difficulty = d, cap_ttl = 180\<rparr>"

definition PY_CAP :: PyCap where
  "PY_CAP = PY_CAP_at DEFAULT_DIFFICULTY"

definition make_pow_challenge_at :: "int \<Rightarrow> string \<Rightarrow> real \<Rightarrow> string \<times> int" where
  "make_pow_challenge_at d token now =
     (let ch = issue (PY_CAP_at d) token now in (challenge ch, difficulty ch))"

definition make_pow_challenge :: "string \<Rightarrow> real \<Rightarrow> string \<times> int" where
  "make_pow_challenge token now = make_pow_challenge_at DEFAULT_DIFFICULTY token now"

text \<open>
  The JSON body of a request to \<^verbatim>\<open>/api/verify\<close> or \<^verbatim>\<open>/api/check\<close>, after
  \<^verbatim>\<open>request.get_json(silent=True) or {}\<close>:
  \<^item> \<open>req_captcha_id\<close> is \<^verbatim>\<open>data.get("captcha_id")\<close>, \<open>None\<close> when the key is absent;
  \<^item> \<open>req_selected_ids\<close> is \<^verbatim>\<open>data.get("selected_ids") or []\<close>, a list of strings;
  \<^item> \<open>req_pow_nonce\<close> is the JSON string under \<^verbatim>\<open>data["pow"]["nonce"]\<close> (\<^verbatim>\<open>str\<close> leaves a
    string as it is), \<open>None\<close> when \<^verbatim>\<open>"pow"\<close> or \<^verbatim>\<open>"nonce"\<close> is absent (Python then takes
    the default \<^verbatim>\<open>""\<close>).
\<close>

record request =
  req_captcha_id :: "string option"
  req_selected_ids :: "string list"
  req_pow_nonce :: "string option"

text \<open>
  The failures of \<^verbatim>\<open>api_verify\<close>, each an HTTP 400 with \<^verbatim>\<open>"success": False\<close> and a message:
  \<^item> \<open>InvalidOrExpiredCaptcha\<close>: \<^verbatim>\<open>"Invalid or expired captcha."\<close>
    (the spec's \<^verbatim>\<open>UnknownOrExpiredChallenge\<close>);
  \<^item> \<open>SelectionCountMismatch n m\<close>: \<^verbatim>\<open>"Must select exactly n images, got m."\<close>;
  \<^item> \<open>MissingPowNonce\<close>: \<^verbatim>\<open>"Missing PoW nonce."\<close>;
  \<^item> \<open>PowRejected err\<close>: the message \<open>err\<close> returned by \<^verbatim>\<open>PyCap.verify\<close>
    (\<^verbatim>\<open>"Challenge expired"\<close> is the spec's \<^verbatim>\<open>PowExpired\<close>,
    \<^verbatim>\<open>"Insufficient PoW difficulty"\<close> its \<^verbatim>\<open>InsufficientDifficulty\<close>).
  A successful return is \<open>Inr success\<close>, the JSON \<^verbatim>\<open>{"success": success}\<close>.
\<close>

datatype verify_error =
    InvalidOrExpiredCaptcha
  | SelectionCountMismatch nat nat
  | MissingPowNonce
  | PowRejected string

text \<open>
  \<^verbatim>\<open>api_verify\<close> in a module whose \<^verbatim>\<open>DEFAULT_DIFFICULTY\<close> is \<open>d\<close>, as a function of the
  hash \<^verbatim>\<open>PyCap.verify\<close> calls, the store, the request and the clock, returning the response
  and the store it leaves. The guard \<^verbatim>\<open>if not record\<close> after the lookup cannot
  fire (a stored dict has three keys and is truthy); it is the \<open>None\<close> branch of the
  second \<open>case\<close>.
\<close>

definition api_verify_at ::
  "int \<Rightarrow> (string \<Rightarrow> string) \<Rightarrow> store \<Rightarrow> request \<Rightarrow> real
     \<Rightarrow> (verify_error + bool) \<times> store" where
  "api_verify_at d hash active req now =
     (case req_captcha_id req of
        None \<Rightarrow> (Inl InvalidOrExpiredCaptcha, active)
      | Some captcha_id \<Rightarrow>
          if captcha_id = [] \<or> active captcha_id = None
          then (Inl InvalidOrExpiredCaptcha, active)
          else
            (case active captcha_id of
               None \<Rightarrow> (Inl InvalidOrExpiredCaptcha, active)
             | Some record \<Rightarrow>
                 let selected_ids = set (req_selected_ids req);
                     difficulty = (if rec_difficulty record = 0 then d
                                   else rec_difficulty record)
                 in if card selected_ids \<noteq> card (correct_ids record)
                    then (Inl (SelectionCountMismatch (card (correct_ids record))
                                 (card selected_ids)), active)
                    else
                      let nonce = (case req_pow_nonce req of None \<Rightarrow> [] | Some n \<Rightarrow> n)
                      in if nonce = [] then (Inl MissingPowNonce, active)
                         else
                           let ch = \<lparr>challenge = pow_challenge record,
                                     difficulty = difficulty,
                                     expires_at = 9999999999\<rparr>;
                               (ok, err) = verify_with hash ch nonce now
                           in if \<not> ok then (Inl (PowRejected err), active)
                              else (Inr (selected_ids = correct_ids record),
                                    active(captcha_id := None))))"

definition api_verify_with ::
  "(string \<Rightarrow> string) \<Rightarrow> store \<Rightarrow> request \<Rightarrow> real \<Rightarrow> (verify_error + bool) \<times> store" where
  "api_verify_with hash active req now = api_verify_at DEFAULT_DIFFICULTY hash active req now"

definition api_verify :: "store \<Rightarrow> request \<Rightarrow> real \<Rightarrow> (verify_error + bool) \<times> store" where
  "api_verify active req now = api_verify_with PyCap_hash active req now"

text \<open>The \<^verbatim>\<open>"pow"\<close> object of a response.\<close>

record pow_info =
  pow_challenge_out :: string
  pow_difficulty_out :: int
  algo :: string

text \<open>The JSON object returned by \<^verbatim>\<open>api_check\<close>; absent keys are \<open>None\<close>.\<close>

record check_response =
  valid :: bool
  correct :: bool
  check_error :: "string option"
  check_pow :: "pow_info option"

definition api_check :: "store \<Rightarrow> request \<Rightarrow> check_response \<times> store" where
  "api_check active req =
     (case req_captcha_id req of
        None \<Rightarrow>
          (\<lparr>valid = False, correct = False,
            check_error = Some ''Invalid or expired captcha.'', check_pow = None\<rparr>, active)
      | Some captcha_id \<Rightarrow>
          (case (if captcha_id = [] then None else active captcha_id) of
             None \<Rightarrow>
               (\<lparr>valid = False, correct = False,
                 check_error = Some ''Invalid or expired captcha.'', check_pow = None\<rparr>, active)
           | Some record \<Rightarrow>
               (\<lparr>valid = True,
                 correct = (set (req_selected_ids req) = correct_ids record),
                 check_error = None,
                 check_pow = Some \<lparr>pow_challenge_out = pow_challenge record,
                                   pow_difficulty_out = rec_difficulty record,
                                   algo = ''sha256-prefix-zeros''\<rparr>\<rparr>, active)))"

text \<open>A client calling \<^verbatim>\<open>/api/check\<close> once for each request of a list, in order.\<close>

fun api_check_all :: "store \<Rightarrow> request list \<Rightarrow> check_response list \<times> store" where
  "api_check_all active [] = ([], active)"
| "api_check_all active (req # reqs) =
     (let (resp, active') = api_check active req;
          (resps, active'') = api_check_all active' reqs
      in (resp # resps, active''))"


section \<open>server.py: issuing a puzzle\<close>

text \<open>
  The dict returned by \<^verbatim>\<open>_discover_categories\<close>, in insertion order: category name and
  the image file names found in its directory.
\<close>

type_synonym catalog = "(string \<times> string list) list"

text \<open>\<^verbatim>\<open>categories[c]\<close>; the key is always one of \<^verbatim>\<open>categories.keys()\<close> where it is used.\<close>

definition categories_get :: "catalog \<Rightarrow> string \<Rightarrow> string list" where
  "categories_get categories c = (case map_of categories c of Some files \<Rightarrow> files | None \<Rightarrow> [])"

text \<open>
  What \<^verbatim>\<open>_discover_categories\<close> guarantees: the keys of a dict are distinct, a category is
  kept only \<^verbatim>\<open>if files\<close>, \<^verbatim>\<open>os.listdir\<close> lists each name of a directory once, and a
  directory entry has no \<^verbatim>\<open>/\<close> in its name.
\<close>

definition wf_catalog :: "catalog \<Rightarrow> bool" where
  "wf_catalog categories \<longleftrightarrow>
     distinct (map fst categories)
     \<and> (\<forall>(cat, files) \<in> set categories.
           files \<noteq> [] \<and> distinct files \<and> CHR ''/'' \<notin> set cat)"

record image =
  img_id :: string
  url :: string

text \<open>The JSON object \<^verbatim>\<open>api_captcha\<close> returns; field \<open>resp_k\<close> is its key \<^verbatim>\<open>k\<close>.\<close>

record captcha_response =
  resp_captcha_id :: string
  resp_prompt :: string
  resp_select_count :: nat
  resp_images :: "image list"
  resp_pow :: pow_info

text \<open>
  \<open>NoCategories\<close> is the HTTP 500 answer \<^verbatim>\<open>"No categories with images found."\<close>;
  \<open>IndexError\<close> and \<open>ValueError\<close> are the exceptions \<^verbatim>\<open>random.choice\<close>,
  \<^verbatim>\<open>random.randint\<close> and \<^verbatim>\<open>random.sample\<close> raise, which nothing in \<^verbatim>\<open>api_captcha\<close> catches.
\<close>

datatype captcha_error = NoCategories | IndexError | ValueError

subsection \<open>The \<^verbatim>\<open>random\<close> module\<close>

text \<open>
  Each function of the library is a function of its arguments and of the random numbers
  it draws. Whatever the numbers drawn, the result is one the library can return for
  these arguments, and every result the library can return comes from some draw
  (\<open>random_randint_complete\<close>, \<open>pick_complete\<close> below).

  \<^verbatim>\<open>random.choice(seq)\<close> returns the element at a position of \<open>seq\<close> and raises
  \<^verbatim>\<open>IndexError\<close> on an empty one. \<^verbatim>\<open>random.randint(a, b)\<close> returns an integer of
  \<open>[a, b]\<close> and raises \<^verbatim>\<open>ValueError\<close> when the range is empty.
\<close>

definition random_choice :: "'a list \<Rightarrow> nat \<Rightarrow> captcha_error + 'a" where
  "random_choice seq x = (if seq = [] then Inl IndexError else Inr (seq ! (x mod length seq)))"

definition random_randint :: "int \<Rightarrow> int \<Rightarrow> nat \<Rightarrow> captcha_error + int" where
  "random_randint a b x = (if b < a then Inl ValueError else Inr (a + int x mod (b - a + 1)))"

text \<open>
  \<open>pick xs k draws\<close> selects \<open>k\<close> elements at \<open>k\<close> different positions of \<open>xs\<close>, in the
  order drawn: each draw names a position among the elements not selected yet (a missing
  draw counts as 0). \<^verbatim>\<open>random.sample(population, k)\<close> is such a selection and raises
  \<^verbatim>\<open>ValueError\<close> for a negative \<open>k\<close> or one above the size of the population;
  \<^verbatim>\<open>random.shuffle(x)\<close> leaves the elements of \<open>x\<close> in the order of a selection of all.
\<close>

fun pick :: "'a list \<Rightarrow> nat \<Rightarrow> nat list \<Rightarrow> 'a list" where
  "pick xs 0 draws = []"
| "pick xs (Suc k) draws =
     (if xs = [] then []
      else let i = (case draws of [] \<Rightarrow> 0 | d # _ \<Rightarrow> d) mod length xs
           in xs ! i # pick (take i xs @ drop (Suc i) xs) k (tl draws))"

definition random_sample :: "'a list \<Rightarrow> int \<Rightarrow> nat list \<Rightarrow> captcha_error + 'a list" where
  "random_sample population k draws =
     (if k < 0 \<or> int (length population) < k then Inl ValueError
      else Inr (pick population (nat k) draws))"

definition random_shuffle :: "'a list \<Rightarrow> nat list \<Rightarrow> 'a list" where
  "random_shuffle x draws = pick x (length x) draws"

text \<open>
  The numbers drawn during one call of \<^verbatim>\<open>api_captcha\<close>, in the order of the calls:
  by \<^verbatim>\<open>random.choice\<close>, by \<^verbatim>\<open>random.randint\<close>, by the two \<^verbatim>\<open>random.sample\<close> calls (of the
  two calls in the \<^verbatim>\<open>if\<close>/\<^verbatim>\<open>else\<close> only one runs) and by \<^verbatim>\<open>random.shuffle\<close>; then the
  values of the successive \<^verbatim>\<open>uuid.uuid4()\<close> calls and of \<^verbatim>\<open>secrets.token_hex(16)\<close>.
\<close>

record rand =
  choice_draw :: nat
  randint_draw :: nat
  target_draws :: "nat list"
  fill_draws :: "nat list"
  shuffle_draws :: "nat list"
  uuids :: "string list"
  token_hex :: string

text \<open>
  \<^verbatim>\<open>uuid.uuid4()\<close> values are 36 characters long and taken to be pairwise different; one
  request makes at most seven calls (six images and the captcha id).
\<close>

definition uuids_ok :: "rand \<Rightarrow> bool" where
  "uuids_ok r \<longleftrightarrow> distinct (uuids r) \<and> [] \<notin> set (uuids r) \<and> 7 \<le> length (uuids r)"

subsection \<open>\<^verbatim>\<open>api_captcha\<close>\<close>

text \<open>
  \<^verbatim>\<open>str.replace(old, new)\<close> for a non-empty \<open>old\<close> (both calls below have one): the
  occurrences are replaced from the left and do not overlap. The first argument counts
  the characters of a matched occurrence still to be skipped.
\<close>

fun replace_from :: "nat \<Rightarrow> string \<Rightarrow> string \<Rightarrow> string \<Rightarrow> string" where
  "replace_from skip old new [] = []"
| "replace_from (Suc skip) old new (c # cs) = replace_from skip old new cs"
| "replace_from 0 old new (c # cs) =
     (if prefix old (c # cs) then new @ replace_from (length old - 1) old new cs
      else c # replace_from 0 old new cs)"

definition replace :: "string \<Rightarrow> string \<Rightarrow> string \<Rightarrow> string" where
  "replace old new s = replace_from 0 old new s"

definition img_url :: "string \<Rightarrow> string \<Rightarrow> string" where
  "img_url cat f = ''/images/'' @ cat @ ''/'' @ f"

text \<open>The list \<^verbatim>\<open>non_target\<close> built by the nested loop over \<^verbatim>\<open>categories.items()\<close>.\<close>

definition non_target_of :: "catalog \<Rightarrow> string \<Rightarrow> (string \<times> string) list" where
  "non_target_of categories target_category =
     concat (map (\<lambda>(cat, files). if cat = target_category then [] else map (Pair cat) files)
               categories)"

text \<open>The two loops that fill \<^verbatim>\<open>images\<close>, each entry with the next \<^verbatim>\<open>uuid4\<close> value.\<close>

definition target_images :: "string \<Rightarrow> string list \<Rightarrow> string list \<Rightarrow> image list" where
  "target_images target_category target_files ids =
     map2 (\<lambda>i f. \<lparr>img_id = i, url = img_url target_category f\<rparr>) ids target_files"

definition fill_images :: "(string \<times> string) list \<Rightarrow> string list \<Rightarrow> image list" where
  "fill_images fill ids = map2 (\<lambda>i (cat, f). \<lparr>img_id = i, url = img_url cat f\<rparr>) ids fill"

text \<open>
  \<^verbatim>\<open>api_captcha\<close> in a module whose \<^verbatim>\<open>DEFAULT_DIFFICULTY\<close> is \<open>d\<close>, as a function of the
  catalog, the numbers drawn, the clock and the store.
\<close>

definition api_captcha_at ::
  "int \<Rightarrow> catalog \<Rightarrow> rand \<Rightarrow> real \<Rightarrow> store \<Rightarrow> captcha_error + (captcha_response \<times> store)" where
  "api_captcha_at d categories r now active =
     (if categories = [] then Inl NoCategories
      else
        let category_names = map fst categories
        in case random_choice category_names (choice_draw r) of
             Inl e \<Rightarrow> Inl e
           | Inr target_category \<Rightarrow>
        let display_label = replace ''_'' '' '' (replace ''_illusion'' [] target_category);
            target_all = categories_get categories target_category;
            max_correct_possible = min 4 (min (int (length target_all)) 6);
            min_correct_required = (if max_correct_possible \<ge> 2 then 2 else 1)
        in case random_randint min_correct_required max_correct_possible (randint_draw r) of
             Inl e \<Rightarrow> Inl e
           | Inr select_count \<Rightarrow>
        (case random_sample target_all (min select_count (int (length target_all)))
                (target_draws r) of
             Inl e \<Rightarrow> Inl e
           | Inr target_files \<Rightarrow>
        let non_target = non_target_of categories target_category;
            needed_non_target = 6 - int (length target_files)
        in case (if int (length non_target) < needed_non_target
                 then (case random_sample (filter (\<lambda>f. f \<notin> set target_files) target_all)
                              (min needed_non_target
                                 (max 0 (int (length target_all) - int (length target_files))))
                              (fill_draws r) of
                         Inl e \<Rightarrow> Inl e
                       | Inr extra \<Rightarrow> Inr (map (Pair target_category) extra))
                 else random_sample non_target needed_non_target (fill_draws r)) of
             Inl e \<Rightarrow> Inl e
           | Inr fill \<Rightarrow>
        let n = length target_files;
            m = length fill;
            first_loop = target_images target_category target_files (take n (uuids r));
            correct_ids = set (map img_id first_loop);
            second_loop = fill_images fill (take m (drop n (uuids r)));
            images = random_shuffle (first_loop @ second_loop) (shuffle_draws r);
            captcha_id = uuids r ! (n + m);
            (pow_challenge, difficulty) = make_pow_challenge_at d (token_hex r) now
        in Inr (\<lparr>resp_captcha_id = captcha_id,
                  resp_prompt = ''Which images contain '' @ display_label @ ''?'',
                  resp_select_count = length target_files,
                  resp_images = images,
                  resp_pow = \<lparr>pow_challenge_out = pow_challenge, pow_difficulty_out = difficulty,
                         algo = ''sha256-prefix-zeros''\<rparr>\<rparr>,
                active(captcha_id \<mapsto>
                  \<lparr>correct_ids = correct_ids, pow_challenge = pow_challenge,
                   rec_difficulty = difficulty\<rparr>))))"

definition api_captcha ::
  "catalog \<Rightarrow> rand \<Rightarrow> real \<Rightarrow> store \<Rightarrow> captcha_error + (captcha_response \<times> store)" where
  "api_captcha categories r now active = api_captcha_at DEFAULT_DIFFICULTY categories r now active"

subsection \<open>The values of the local variables of \<^verbatim>\<open>api_captcha\<close>\<close>

text \<open>
  Named so that statements can speak of them; \<open>api_captcha_at_eq\<close> below shows that they
  are the values \<^verbatim>\<open>api_captcha\<close> computes.
\<close>

definition target_category_of :: "catalog \<Rightarrow> rand \<Rightarrow> string" where
  "target_category_of categories r = map fst categories ! (choice_draw r mod length categories)"

definition target_all_of :: "catalog \<Rightarrow> rand \<Rightarrow> string list" where
  "target_all_of categories r = categories_get categories (target_category_of categories r)"

definition max_correct_possible_of :: "catalog \<Rightarrow> rand \<Rightarrow> int" where
  "max_correct_possible_of categories r = min 4 (min (int (length (target_all_of categories r))) 6)"

definition min_correct_required_of :: "catalog \<Rightarrow> rand \<Rightarrow> int" where
  "min_correct_required_of categories r = (if max_correct_possible_of categories r \<ge> 2 then 2 else 1)"

definition select_count_of :: "catalog \<Rightarrow> rand \<Rightarrow> int" where
  "select_count_of categories r =
     min_correct_required_of categories r
     + int (randint_draw r)
         mod (max_correct_possible_of categories r - min_correct_required_of categories r + 1)"

definition target_files_of :: "catalog \<Rightarrow> rand \<Rightarrow> string list" where
  "target_files_of categories r =
     pick (target_all_of categories r)
       (nat (min (select_count_of categories r) (int (length (target_all_of categories r)))))
       (target_draws r)"

definition needed_non_target_of :: "catalog \<Rightarrow> rand \<Rightarrow> int" where
  "needed_non_target_of categories r = 6 - int (length (target_files_of categories r))"

text \<open>The images of the target category that the first sample left out.\<close>

definition target_rest_of :: "catalog \<Rightarrow> rand \<Rightarrow> string list" where
  "target_rest_of categories r =
     filter (\<lambda>f. f \<notin> set (target_files_of categories r)) (target_all_of categories r)"

text \<open>The condition of the \<^verbatim>\<open>if\<close>: too few images outside the target category.\<close>

definition fallback :: "catalog \<Rightarrow> rand \<Rightarrow> bool" where
  "fallback categories r \<longleftrightarrow>
     int (length (non_target_of categories (target_category_of categories r)))
       < needed_non_target_of categories r"

text \<open>The size \<open>k\<close> the fallback asks \<^verbatim>\<open>random.sample\<close> for.\<close>

definition extra_count_of :: "catalog \<Rightarrow> rand \<Rightarrow> int" where
  "extra_count_of categories r =
     min (needed_non_target_of categories r)
       (max 0 (int (length (target_all_of categories r))
               - int (length (target_files_of categories r))))"

definition fill_of :: "catalog \<Rightarrow> rand \<Rightarrow> (string \<times> string) list" where
  "fill_of categories r =
     (if fallback categories r
      then map (Pair (target_category_of categories r))
             (pick (target_rest_of categories r) (nat (extra_count_of categories r)) (fill_draws r))
      else pick (non_target_of categories (target_category_of categories r))
             (nat (needed_non_target_of categories r)) (fill_draws r))"

text \<open>The entries the two loops append to \<^verbatim>\<open>images\<close>.\<close>

definition first_loop_of :: "catalog \<Rightarrow> rand \<Rightarrow> image list" where
  "first_loop_of categories r =
     target_images (target_category_of categories r) (target_files_of categories r)
       (take (length (target_files_of categories r)) (uuids r))"

definition second_loop_of :: "catalog \<Rightarrow> rand \<Rightarrow> image list" where
  "second_loop_of categories r =
     fill_images (fill_of categories r)
       (take (length (fill_of categories r))
          (drop (length (target_files_of categories r)) (uuids r)))"

text \<open>The captcha id, the response and the stored record.\<close>

definition issued_id_of :: "catalog \<Rightarrow> rand \<Rightarrow> string" where
  "issued_id_of categories r =
     uuids r ! (length (target_files_of categories r) + length (fill_of categories r))"

definition response_of :: "int \<Rightarrow> catalog \<Rightarrow> rand \<Rightarrow> captcha_response" where
  "response_of d categories r =
     \<lparr>resp_captcha_id = issued_id_of categories r,
      resp_prompt = ''Which images contain ''
         @ replace ''_'' '' '' (replace ''_illusion'' [] (target_category_of categories r)) @ ''?'',
      resp_select_count = length (target_files_of categories r),
      resp_images = random_shuffle (first_loop_of categories r @ second_loop_of categories r)
                      (shuffle_draws r),
      resp_pow = \<lparr>pow_challenge_out = token_hex r, pow_difficulty_out = d,
                   algo = ''sha256-prefix-zeros''\<rparr>\<rparr>"

definition record_of :: "int \<Rightarrow> catalog \<Rightarrow> rand \<Rightarrow> puzzle" where
  "record_of d categories r =
     \<lparr>correct_ids = set (map img_id (first_loop_of categories r)),
      pow_challenge = token_hex r, rec_difficulty = d\<rparr>"

text \<open>
  A grid entry whose file is one of category \<open>cat\<close>: its URL is
  \<^verbatim>\<open>/images/<cat>/<f>\<close> for a file \<open>f\<close> of that category.
\<close>

definition from_category :: "catalog \<Rightarrow> string \<Rightarrow> image \<Rightarrow> bool" where
  "from_category categories cat img \<longleftrightarrow>
     (\<exists>f \<in> set (categories_get categories cat). url img = img_url cat f)"

text \<open>
  The reading of ``the distractor pool and the target-category fallback together cannot
  fill the grid'': the images outside the target category and the unsampled images of
  the target category are, taken together, fewer than the slots left.
\<close>

definition together_cannot_fill :: "catalog \<Rightarrow> rand \<Rightarrow> bool" where
  "together_cannot_fill categories r \<longleftrightarrow>
     int (length (non_target_of categories (target_category_of categories r)))
       + int (length (target_rest_of categories r))
     < needed_non_target_of categories r"

section \<open>Concrete data for the closed instances below\<close>

definition ex_token :: string where
  "ex_token = ''00112233445566778899aabbccddeeff''"

definition ex_challenge :: Challenge where
  "ex_challenge = \<lparr>challenge = ex_token, difficulty = 5, expires_at = 180\<rparr>"

definition ex_record :: puzzle where
  "ex_record = \<lparr>correct_ids = {''u1'', ''u2''}, pow_challenge = ex_token, rec_difficulty = 5\<rparr>"

definition ex_active :: store where
  "ex_active = Map.empty(''cid'' \<mapsto> ex_record)"

text \<open>Requests for \<open>''cid''\<close>: the right answer with a nonce that solves the PoW, one
  selection too few, no nonce, and a nonce that does not solve the PoW.\<close>

definition ex_req_good :: request where
  "ex_req_good = \<lparr>req_captcha_id = Some ''cid'', req_selected_ids = [''u1'', ''u2''],
                   req_pow_nonce = Some ''445142''\<rparr>"

definition ex_req_short :: request where
  "ex_req_short = \<lparr>req_captcha_id = Some ''cid'', req_selected_ids = [''u1''],
                    req_pow_nonce = Some ''445142''\<rparr>"

definition ex_req_no_nonce :: request where
  "ex_req_no_nonce = \<lparr>req_captcha_id = Some ''cid'', req_selected_ids = [''u1'', ''u2''],
                       req_pow_nonce = None\<rparr>"

definition ex_req_bad_pow :: request where
  "ex_req_bad_pow = \<lparr>req_captcha_id = Some ''cid'', req_selected_ids = [''u1'', ''u2''],
                      req_pow_nonce = Some ''1''\<rparr>"


text \<open>The record and the store of a module whose \<^verbatim>\<open>DEFAULT_DIFFICULTY\<close> is 0.\<close>

definition ex_record0 :: puzzle where
  "ex_record0 = \<lparr>correct_ids = {''u1'', ''u2''}, pow_challenge = ex_token, rec_difficulty = 0\<rparr>"

definition ex_active0 :: store where
  "ex_active0 = Map.empty(''cid'' \<mapsto> ex_record0)"

text \<open>
  Three catalogs and the values drawn in one run on each. On \<open>ex_catalog\<close> the target is
  \<^verbatim>\<open>cats_illusion\<close>, two of its images are sampled and four distractors fill the grid. On
  \<open>ex_catalog_one\<close> nothing but the target category exists, and on \<open>ex_catalog_two\<close> the other
  category has three images where four are needed: both runs take the fallback.
\<close>

definition ex_catalog :: catalog where
  "ex_catalog = [(''cats_illusion'', [''a.png'', ''b.png'', ''c.png'']),
                 (''dogs'', [''d.png'', ''e.png'', ''f.png'']),
                 (''birds'', [''g.png'', ''h.png''])]"

definition ex_rand :: rand where
  "ex_rand = \<lparr>choice_draw = 0, randint_draw = 0, target_draws = [2, 0],
               fill_draws = [4, 0, 2, 0], shuffle_draws = [3, 0, 3, 0, 1, 0],
               uuids = [''u1'', ''u2'', ''u3'', ''u4'', ''u5'', ''u6'', ''cid''],
               token_hex = ex_token\<rparr>"

definition ex_catalog_one :: catalog where
  "ex_catalog_one = [(''cats'', [''a.png'', ''b.png'', ''c.png''])]"

definition ex_catalog_two :: catalog where
  "ex_catalog_two = [(''cats'', [''a.png'', ''b.png'', ''c.png'']),
                     (''dogs'', [''d.png'', ''e.png'', ''f.png''])]"

definition ex_rand_short :: rand where
  "ex_rand_short = \<lparr>choice_draw = 0, randint_draw = 0, target_draws = [0, 0],
                     fill_draws = [0], shuffle_draws = [2, 0, 0],
                     uuids = [''u1'', ''u2'', ''u3'', ''cid'', ''u5'', ''u6'', ''u7''],
                     token_hex = ex_token\<rparr>"

text \<open>The responses of those runs.\<close>

definition ex_response :: captcha_response where
  "ex_response =
     \<lparr>resp_captcha_id = ''cid'',
      resp_prompt = ''Which images contain cats?'',
      resp_select_count = 2,
      resp_images = [\<lparr>img_id = ''u4'', url = ''/images/dogs/d.png''\<rparr>,
                     \<lparr>img_id = ''u1'', url = ''/images/cats_illusion/c.png''\<rparr>,
                     \<lparr>img_id = ''u6'', url = ''/images/dogs/e.png''\<rparr>,
                     \<lparr>img_id = ''u2'', url = ''/images/cats_illusion/a.png''\<rparr>,
                     \<lparr>img_id = ''u5'', url = ''/images/birds/g.png''\<rparr>,
                     \<lparr>img_id = ''u3'', url = ''/images/birds/h.png''\<rparr>],
      resp_pow = \<lparr>pow_challenge_out = ex_token, pow_difficulty_out = 5,
                   algo = ''sha256-prefix-zeros''\<rparr>\<rparr>"

definition ex_response0 :: captcha_response where
  "ex_response0 = ex_response\<lparr>resp_pow := \<lparr>pow_challenge_out = ex_token, pow_difficulty_out = 0,
                                            algo = ''sha256-prefix-zeros''\<rparr>\<rparr>"

definition ex_response_short :: captcha_response where
  "ex_response_short =
     \<lparr>resp_captcha_id = ''cid'',
      resp_prompt = ''Which images contain cats?'',
      resp_select_count = 2,
      resp_images = [\<lparr>img_id = ''u3'', url = ''/images/cats/c.png''\<rparr>,
                     \<lparr>img_id = ''u1'', url = ''/images/cats/a.png''\<rparr>,
                     \<lparr>img_id = ''u2'', url = ''/images/cats/b.png''\<rparr>],
      resp_pow = \<lparr>pow_challenge_out = ex_token, pow_difficulty_out = 5,
                   algo = ''sha256-prefix-zeros''\<rparr>\<rparr>"

text \<open>The number of leading \<^verbatim>\<open>'0'\<close> characters of a hexadecimal digest.\<close>

definition leading_zeros :: "string \<Rightarrow> nat" where
  "leading_zeros s = length (takeWhile (\<lambda>c. c = CHR ''0'') s)"


section \<open>Properties\<close>

lemma sha256_hex_abc:
  "sha256_hex ''abc'' = ''ba7816bf8f01cfea414140de5dae2223b00361a396177a9cb410ff61f20015ad''"
  by code_simp

lemma sha256_hex_empty:
  "sha256_hex '''' = ''e3b0c44298fc1c149afbf4c8996fb92427ae41e4649b934ca495991b7852b855''"
  by code_simp

lemma sha256_hex_two_blocks:
  "sha256_hex ''abcdbcdecdefdefgefghfghighijhijkijkljklmklmnlmnomnopnopq''
     = ''248d6a61d20638b8e5c026930c3e6039a33ce45964ff2167f6ecedd419db06c1''"
  by code_simp

lemma prefix_replicate_takeWhile:
  "prefix (replicate n c) xs \<longleftrightarrow> n \<le> length (takeWhile (\<lambda>x. x = c) xs)"
proof (induction xs arbitrary: n)
  case Nil
  then show ?case by simp
next
  case (Cons x xs)
  then show ?case by (cases n) auto
qed

lemma startswith_zeros_iff:
  "prefix (replicate (nat d) CHR ''0'') s \<longleftrightarrow> d \<le> int (leading_zeros s)"
  unfolding leading_zeros_def prefix_replicate_takeWhile by linarith

lemma startswith_zeros_nat:
  "prefix (replicate n CHR ''0'') s \<longleftrightarrow> n \<le> leading_zeros s"
  by (simp add: leading_zeros_def prefix_replicate_takeWhile)

lemma digest_good:
  "sha256_hex ''00112233445566778899aabbccddeeff:445142''
     = ''00000cd3787ffddc6829e87038069f6941b2e2f291a46a1db610c41275b380bc''"
  by code_simp

lemma digest_bad:
  "sha256_hex ''00112233445566778899aabbccddeeff:1''
     = ''9222407c5ca61f3d3d835f95385556eef7b5f120009cbc2c578964433f950020''"
  by code_simp

subsection \<open>Runs of \<^verbatim>\<open>api_verify\<close> on the concrete store\<close>

lemma api_verify_run_good:
  "api_verify ex_active ex_req_good 1000 = (Inr True, Map.empty)"
  by (simp add: api_verify_def api_verify_with_def api_verify_at_def verify_with_def PyCap_hash_def ex_active_def
        ex_record_def ex_req_good_def ex_token_def DEFAULT_DIFFICULTY_def digest_good
        startswith_zeros_nat leading_zeros_def)

lemma api_verify_run_bad:
  "api_verify ex_active ex_req_bad_pow 1000
     = (Inl (PowRejected ''Insufficient PoW difficulty''), ex_active)"
  by (simp add: api_verify_def api_verify_with_def api_verify_at_def verify_with_def PyCap_hash_def ex_active_def
        ex_record_def ex_req_bad_pow_def ex_token_def DEFAULT_DIFFICULTY_def digest_bad
        startswith_zeros_nat leading_zeros_def)

lemma api_verify_run_no_nonce:
  "api_verify ex_active ex_req_no_nonce 1000 = (Inl MissingPowNonce, ex_active)"
  by (simp add: api_verify_def api_verify_with_def api_verify_at_def ex_active_def
        ex_record_def ex_req_no_nonce_def)

lemma api_verify_run_short:
  "api_verify ex_active ex_req_short 1000 = (Inl (SelectionCountMismatch 2 1), ex_active)"
  by (simp add: api_verify_def api_verify_with_def api_verify_at_def ex_active_def
        ex_record_def ex_req_short_def)

lemma api_verify_unknown:
  "active cid = None \<Longrightarrow> req_captcha_id req = Some cid \<Longrightarrow>
   api_verify_with hash active req now = (Inl InvalidOrExpiredCaptcha, active)"
  by (simp add: api_verify_with_def api_verify_at_def)

lemma api_verify_store_cases:
  "api_verify_with hash active req now = (res, active') \<Longrightarrow> req_captcha_id req = Some cid \<Longrightarrow>
   (case res of Inr success \<Rightarrow> active' = active(cid := None) | Inl e \<Rightarrow> active' = active)"
  by (auto simp: api_verify_with_def api_verify_at_def Let_def split: option.splits if_splits prod.splits)

subsection \<open>C6: the PoW check of \<^verbatim>\<open>PyCap.verify\<close>\<close>

text \<open>
  C6. When the challenge is not expired, \<^verbatim>\<open>PyCap.verify\<close> hashes
  \<^verbatim>\<open>challenge + ":" + nonce\<close> with SHA-256 and returns \<^verbatim>\<open>(True, "ok")\<close> if and only if the
  hexadecimal digest has at least \<open>difficulty\<close> leading \<^verbatim>\<open>'0'\<close> characters; otherwise it
  returns \<^verbatim>\<open>(False, "Insufficient PoW difficulty")\<close>.
\<close>

theorem verify_pow_check:
  "\<not> now > expires_at ch \<Longrightarrow>
     verify ch nonce now =
       (if difficulty ch \<le> int (leading_zeros (sha256_hex (challenge ch @ '':'' @ nonce)))
        then (True, ''ok'') else (False, ''Insufficient PoW difficulty''))"
  by (simp add: verify_def verify_with_def PyCap_hash_def startswith_zeros_iff)

theorem verify_pow_check_witness:
  "\<not> (100::real) > expires_at ex_challenge
   \<and> verify ex_challenge ''445142'' 100 = (True, ''ok'')
   \<and> verify ex_challenge ''1'' 100 = (False, ''Insufficient PoW difficulty'')"
  using verify_pow_check [where now = 100 and ch = ex_challenge and nonce = "''445142''"]
        verify_pow_check [where now = 100 and ch = ex_challenge and nonce = "''1''"]
  by (simp add: ex_challenge_def ex_token_def digest_good digest_bad leading_zeros_def)

subsection \<open>C9: the selection count is checked before the PoW\<close>

text \<open>
  C9. For a known challenge id, whenever the number of selected ids differs from the
  number of correct ids, \<^verbatim>\<open>api_verify\<close> answers \<open>SelectionCountMismatch\<close> and leaves the
  store as it was. The answer is the same for every hash function, every nonce field of
  the request and every clock reading: the PoW check has no part in it.
\<close>

theorem count_mismatch_before_pow:
  "req_captcha_id req = Some cid \<Longrightarrow> cid \<noteq> [] \<Longrightarrow> active cid = Some entry \<Longrightarrow>
   card (set (req_selected_ids req)) \<noteq> card (correct_ids entry) \<Longrightarrow>
   api_verify_with hash active (req\<lparr>req_pow_nonce := nonce\<rparr>) now =
     (Inl (SelectionCountMismatch (card (correct_ids entry))
             (card (set (req_selected_ids req)))), active)"
  by (simp add: api_verify_with_def api_verify_at_def)

theorem count_mismatch_before_pow_witness:
  "req_captcha_id ex_req_short = Some ''cid'' \<and> ''cid'' \<noteq> [] \<and> ex_active ''cid'' = Some ex_record
   \<and> card (set (req_selected_ids ex_req_short)) \<noteq> card (correct_ids ex_record)
   \<and> api_verify ex_active ex_req_short 100 = (Inl (SelectionCountMismatch 2 1), ex_active)"
  using count_mismatch_before_pow [where req = ex_req_short and cid = "''cid''"
          and active = ex_active and entry = ex_record and hash = PyCap_hash
          and nonce = "Some ''445142''" and now = 100]
  by (simp add: ex_req_short_def ex_active_def ex_record_def api_verify_def)

subsection \<open>C10: \<^verbatim>\<open>api_check\<close> leaves the store alone\<close>

text \<open>
  C10. \<^verbatim>\<open>api_check\<close> never modifies the challenge store: whatever the request, the store
  after the call is the store before it, so a later \<^verbatim>\<open>api_verify\<close> behaves as if the check
  had not happened and the queried id is still there for it.
\<close>

theorem api_check_store_unchanged:
  "snd (api_check active req) = active
   \<and> api_verify (snd (api_check active req)) req' now = api_verify active req' now"
  by (simp add: api_check_def split: option.splits)

theorem api_check_store_unchanged_witness:
  "snd (api_check ex_active ex_req_short) = ex_active
   \<and> snd (api_check ex_active ex_req_short) ''cid'' = Some ex_record"
  using api_check_store_unchanged [where active = ex_active and req = ex_req_short]
  by (simp add: ex_active_def)

subsection \<open>C5: \<^verbatim>\<open>api_check\<close> on a pending challenge\<close>

lemma check_one_pending:
  "active cid = Some entry \<Longrightarrow> cid \<noteq> [] \<Longrightarrow> req_captcha_id req = Some cid \<Longrightarrow>
   api_check active req =
     (\<lparr>valid = True, correct = (set (req_selected_ids req) = correct_ids entry),
       check_error = None,
       check_pow = Some \<lparr>pow_challenge_out = pow_challenge entry,
                         pow_difficulty_out = rec_difficulty entry,
                         algo = ''sha256-prefix-zeros''\<rparr>\<rparr>, active)"
  by (simp add: api_check_def)

text \<open>
  C5. For a pending challenge id (ids are \<^verbatim>\<open>str(uuid.uuid4())\<close>, never the empty string)
  and any sequence of requests naming it, every \<^verbatim>\<open>api_check\<close> call answers
  \<open>valid = True\<close> and \<open>correct = (selected_ids = correct_ids)\<close>, whatever the nonce field of
  the request holds, and the store is unchanged after the whole sequence: the answer can
  be queried any number of times.
\<close>

theorem api_check_pending:
  "active cid = Some entry \<Longrightarrow> cid \<noteq> [] \<Longrightarrow>
   \<forall>req \<in> set reqs. req_captcha_id req = Some cid \<Longrightarrow>
   api_check_all active reqs =
     (map (\<lambda>req. \<lparr>valid = True, correct = (set (req_selected_ids req) = correct_ids entry),
                   check_error = None,
                   check_pow = Some \<lparr>pow_challenge_out = pow_challenge entry,
                                     pow_difficulty_out = rec_difficulty entry,
                                     algo = ''sha256-prefix-zeros''\<rparr>\<rparr>) reqs, active)"
  by (induction reqs) (simp_all add: check_one_pending)

theorem api_check_pending_witness:
  "ex_active ''cid'' = Some ex_record \<and> ''cid'' \<noteq> []
   \<and> req_captcha_id ex_req_short = Some ''cid'' \<and> req_captcha_id ex_req_no_nonce = Some ''cid''
   \<and> req_captcha_id ex_req_good = Some ''cid''
   \<and> map valid (fst (api_check_all ex_active [ex_req_short, ex_req_no_nonce, ex_req_good]))
        = [True, True, True]
   \<and> map correct (fst (api_check_all ex_active [ex_req_short, ex_req_no_nonce, ex_req_good]))
        = [False, True, True]
   \<and> snd (api_check_all ex_active [ex_req_short, ex_req_no_nonce, ex_req_good]) = ex_active"
  using api_check_pending [where active = ex_active and cid = "''cid''" and entry = ex_record
          and reqs = "[ex_req_short, ex_req_no_nonce, ex_req_good]"]
  by (simp add: ex_active_def ex_record_def ex_req_short_def ex_req_no_nonce_def ex_req_good_def)

subsection \<open>C1: when \<^verbatim>\<open>api_verify\<close> retires the puzzle\<close>

text \<open>
  C1 as stated (the record is removed by the first verification attempt whichever check
  fails, so a second call with the same id answers \<open>InvalidOrExpiredCaptcha\<close>) fails:
  after a count mismatch the second call reports the mismatch again, after a missing
  nonce it reports the missing nonce again, and after a failed PoW the record is still
  stored and a second call with a good nonce succeeds.
\<close>

theorem verify_twice_counterexample:
  "fst (api_verify (snd (api_verify ex_active ex_req_short 1000)) ex_req_short 1000)
     = Inl (SelectionCountMismatch 2 1)
   \<and> fst (api_verify (snd (api_verify ex_active ex_req_no_nonce 1000)) ex_req_no_nonce 1000)
     = Inl MissingPowNonce
   \<and> fst (api_verify (snd (api_verify ex_active ex_req_bad_pow 1000)) ex_req_good 1000)
     = Inr True
   \<and> snd (api_verify ex_active ex_req_bad_pow 1000) ''cid'' = Some ex_record"
  by (simp add: api_verify_run_short api_verify_run_no_nonce api_verify_run_bad api_verify_run_good)
    (simp add: ex_active_def)

text \<open>
  C1, amended. A call of \<^verbatim>\<open>api_verify\<close> that gets past the count, nonce and PoW checks
  and answers \<^verbatim>\<open>{"success": ...}\<close> removes the record, whether the answer was right or
  wrong; every later call naming that id then answers \<open>InvalidOrExpiredCaptcha\<close>.
\<close>

theorem verify_consumes_after_pow:
  "api_verify active req now = (Inr success, active') \<Longrightarrow> req_captcha_id req = Some cid \<Longrightarrow>
   req_captcha_id req2 = Some cid \<Longrightarrow>
   active' = active(cid := None)
   \<and> api_verify active' req2 now2 = (Inl InvalidOrExpiredCaptcha, active')"
proof -
  assume run: "api_verify active req now = (Inr success, active')"
    and id1: "req_captcha_id req = Some cid" and id2: "req_captcha_id req2 = Some cid"
  have gone: "active' = active(cid := None)"
    using api_verify_store_cases [of PyCap_hash active req now "Inr success" active' cid] run id1
    by (simp add: api_verify_def)
  then have "active' cid = None" by simp
  then have "api_verify active' req2 now2 = (Inl InvalidOrExpiredCaptcha, active')"
    using id2 by (simp add: api_verify_def api_verify_unknown)
  with gone show ?thesis by simp
qed

theorem verify_consumes_after_pow_witness:
  "api_verify ex_active ex_req_good 1000 = (Inr True, Map.empty)
   \<and> req_captcha_id ex_req_good = Some ''cid'' \<and> req_captcha_id ex_req_bad_pow = Some ''cid''
   \<and> Map.empty = ex_active(''cid'' := None)
   \<and> api_verify Map.empty ex_req_bad_pow 2000 = (Inl InvalidOrExpiredCaptcha, Map.empty)"
  using verify_consumes_after_pow [where active = ex_active and req = ex_req_good and now = 1000
          and success = True and active' = Map.empty and cid = "''cid''"
          and ?req2.0 = ex_req_bad_pow and ?now2.0 = 2000]
  by (simp add: api_verify_run_good) (simp add: ex_req_good_def ex_req_bad_pow_def ex_active_def)

text \<open>A call that fails leaves the store as it found it.\<close>

lemma api_verify_error_keeps_store:
  "api_verify active req now = (Inl e, active') \<Longrightarrow> active' = active"
  by (auto simp: api_verify_def api_verify_with_def api_verify_at_def Let_def
      split: option.splits if_splits prod.splits)

subsection \<open>The \<^verbatim>\<open>random\<close> functions return what the library can return\<close>

lemma length_pick: "length (pick xs k draws) = min k (length xs)"
proof (induction k arbitrary: xs draws)
  case 0
  then show ?case by simp
next
  case (Suc k)
  show ?case
  proof (cases "xs = []")
    case True
    then show ?thesis by simp
  next
    case False
    define i where "i = (case draws of [] \<Rightarrow> 0 | d # _ \<Rightarrow> d) mod length xs"
    have i: "i < length xs" using False by (simp add: i_def)
    then have "length (take i xs @ drop (Suc i) xs) = length xs - 1" by simp
    with Suc [of "take i xs @ drop (Suc i) xs" "tl draws"]
    have "length (pick (take i xs @ drop (Suc i) xs) k (tl draws)) = min k (length xs - 1)"
      by simp
    moreover have "Suc (min k (length xs - 1)) = min (Suc k) (length xs)" using i by linarith
    ultimately show ?thesis using False by (simp add: i_def [symmetric] Let_def)
  qed
qed

lemma mset_without: "i < length xs \<Longrightarrow> mset xs = add_mset (xs ! i) (mset (take i xs @ drop (Suc i) xs))"
proof -
  assume "i < length xs"
  then have "xs = take i xs @ xs ! i # drop (Suc i) xs" by (rule id_take_nth_drop)
  then have "mset xs = mset (take i xs @ xs ! i # drop (Suc i) xs)" by (rule arg_cong)
  also have "\<dots> = add_mset (xs ! i) (mset (take i xs @ drop (Suc i) xs))" by simp
  finally show ?thesis .
qed

lemma mset_pick: "mset (pick xs k draws) \<subseteq># mset xs"
proof (induction k arbitrary: xs draws)
  case 0
  then show ?case by simp
next
  case (Suc k)
  show ?case
  proof (cases "xs = []")
    case True
    then show ?thesis by simp
  next
    case False
    define i where "i = (case draws of [] \<Rightarrow> 0 | d # _ \<Rightarrow> d) mod length xs"
    have i: "i < length xs" using False by (simp add: i_def)
    have "mset (pick (take i xs @ drop (Suc i) xs) k (tl draws))
            \<subseteq># mset (take i xs @ drop (Suc i) xs)" by (rule Suc)
    then have "add_mset (xs ! i) (mset (pick (take i xs @ drop (Suc i) xs) k (tl draws)))
            \<subseteq># mset xs"
      unfolding mset_without [OF i] by simp
    then show ?thesis using False by (simp add: i_def [symmetric] Let_def)
  qed
qed

lemma set_pick: "set (pick xs k draws) \<subseteq> set xs"
  using set_mset_mono [OF mset_pick [of xs k draws]] by simp

lemma distinct_pick: "distinct xs \<Longrightarrow> distinct (pick xs k draws)"
proof -
  assume d: "distinct xs"
  have "count (mset (pick xs k draws)) a = (if a \<in> set (pick xs k draws) then 1 else 0)" for a
  proof -
    have "count (mset (pick xs k draws)) a \<le> count (mset xs) a"
      using mset_pick by (rule mset_subset_eq_count)
    moreover have "count (mset xs) a \<le> 1" using d by (simp add: distinct_count_atmost_1)
    ultimately have le: "count (mset (pick xs k draws)) a \<le> 1" by linarith
    show ?thesis
    proof (cases "a \<in> set (pick xs k draws)")
      case True
      then have "0 < count (mset (pick xs k draws)) a" by simp
      with le have "count (mset (pick xs k draws)) a = 1" by linarith
      with True show ?thesis by simp
    next
      case False
      then show ?thesis by simp
    qed
  qed
  then show ?thesis by (simp add: distinct_count_atmost_1)
qed

lemma mset_pick_all: "mset (pick xs (length xs) draws) = mset xs"
proof -
  show ?thesis
  proof (rule ccontr)
    assume "mset (pick xs (length xs) draws) \<noteq> mset xs"
    with mset_pick [of xs "length xs" draws]
    have "mset (pick xs (length xs) draws) \<subset># mset xs"
      by (simp add: subset_mset.less_le)
    then have "size (mset (pick xs (length xs) draws)) < size (mset xs)"
      by (rule mset_subset_size)
    then show False by (simp add: length_pick)
  qed
qed

lemma pick_complete:
  "distinct idxs \<Longrightarrow> \<forall>i \<in> set idxs. i < length xs \<Longrightarrow>
     \<exists>draws. pick xs (length idxs) draws = map (nth xs) idxs"
proof (induction n \<equiv> "length idxs" arbitrary: idxs xs)
  case 0
  then show ?case by simp
next
  case (Suc n)
  then obtain i rest where idxs: "idxs = i # rest" by (cases idxs) auto
  let ?ys = "take i xs @ drop (Suc i) xs"
  let ?f = "\<lambda>j. if j < i then j else j - 1"
  from Suc.prems [unfolded idxs] have i: "i < length xs" and ni: "i \<notin> set rest" and d: "distinct rest"
    and b: "\<forall>j \<in> set rest. j < length xs" by auto
  have inj: "inj_on ?f (set rest)"
  proof (rule inj_onI)
    fix x y assume "x \<in> set rest" and "y \<in> set rest" and eq: "?f x = ?f y"
    with ni have "x \<noteq> i" and "y \<noteq> i" by auto
    with eq show "x = y" by (simp split: if_splits; linarith)
  qed
  have d': "distinct (map ?f rest)" using d inj by (simp add: distinct_map)
  have b': "\<forall>j \<in> set (map ?f rest). j < length ?ys"
  proof
    fix j assume "j \<in> set (map ?f rest)"
    then obtain x where x: "x \<in> set rest" and j: "j = ?f x" by auto
    with ni b have "x \<noteq> i" and "x < length xs" by auto
    with i j show "j < length ?ys" by (simp split: if_splits; linarith)
  qed
  have nth: "?ys ! ?f j = xs ! j" if "j \<in> set rest" for j
  proof -
    from that ni b have ji: "j \<noteq> i" and jl: "j < length xs" by auto
    show ?thesis
    proof (cases "j < i")
      case True
      then show ?thesis using i by (simp add: nth_append)
    next
      case False
      with ji have gt: "i < j" by simp
      then have "\<not> j - 1 < i" by linarith
      then have "?ys ! (j - 1) = drop (Suc i) xs ! (j - 1 - i)"
        using i by (simp add: nth_append min_def)
      also have "\<dots> = xs ! (Suc i + (j - 1 - i))" using jl gt by simp
      also have "Suc i + (j - 1 - i) = j" using gt by simp
      finally show ?thesis using False by simp
    qed
  qed
  have n: "n = length (map ?f rest)" using Suc.hyps(2) idxs by simp
  from Suc.hyps(1) [OF n d' b'] obtain draws where
    "pick ?ys (length rest) draws = map (nth ?ys) (map ?f rest)" by auto
  also have "\<dots> = map (nth xs) rest" using nth by simp
  finally have "pick xs (length (i # rest)) (i # draws) = map (nth xs) (i # rest)"
    using i by (auto simp: Let_def)
  then show ?case unfolding idxs by blast
qed

lemma random_choice_complete:
  "i < length seq \<Longrightarrow> random_choice seq i = Inr (seq ! i)"
  by (auto simp: random_choice_def)

lemma random_randint_range:
  "random_randint a b x = Inr v \<Longrightarrow> a \<le> v \<and> v \<le> b"
proof -
  assume run: "random_randint a b x = Inr v"
  then have ab: "\<not> b < a" and v: "v = a + int x mod (b - a + 1)"
    by (auto simp: random_randint_def split: if_splits)
  from ab have w: "0 < b - a + 1" by simp
  have "0 \<le> int x mod (b - a + 1)" using w by (rule pos_mod_sign)
  moreover have "int x mod (b - a + 1) < b - a + 1" using w by (rule pos_mod_bound)
  ultimately show ?thesis using v by linarith
qed

lemma random_randint_complete:
  "a \<le> v \<Longrightarrow> v \<le> b \<Longrightarrow> random_randint a b (nat (v - a)) = Inr v"
  by (simp add: random_randint_def)

lemma random_sample_complete:
  assumes "distinct idxs" and "\<forall>i \<in> set idxs. i < length population"
  shows "\<exists>draws. random_sample population (int (length idxs)) draws
                   = Inr (map (nth population) idxs)"
proof -
  have "card (set idxs) \<le> card {..<length population}"
    using assms(2) by (intro card_mono) auto
  then have "length idxs \<le> length population" using assms(1) by (simp add: distinct_card)
  with pick_complete [OF assms] show ?thesis by (simp add: random_sample_def)
qed

lemma mset_random_shuffle: "mset (random_shuffle x draws) = mset x"
  by (simp add: random_shuffle_def mset_pick_all)

subsection \<open>What \<^verbatim>\<open>api_captcha\<close> returns\<close>

lemma make_pow_challenge_at_eq: "make_pow_challenge_at d token now = (token, d)"
  by (simp add: make_pow_challenge_at_def issue_def PY_CAP_at_def Let_def)

lemma max_correct_possible_pos:
  "target_all_of categories r \<noteq> [] \<Longrightarrow> 1 \<le> max_correct_possible_of categories r"
  by (cases "target_all_of categories r") (simp_all add: max_correct_possible_of_def)

lemma range_nonempty:
  "target_all_of categories r \<noteq> [] \<Longrightarrow>
   min_correct_required_of categories r \<le> max_correct_possible_of categories r"
  using max_correct_possible_pos [of categories r]
  by (simp add: min_correct_required_of_def)

lemma range_empty:
  "target_all_of categories r = [] \<Longrightarrow>
   max_correct_possible_of categories r < min_correct_required_of categories r"
  by (simp add: min_correct_required_of_def max_correct_possible_of_def)

lemma select_count_range:
  assumes "target_all_of categories r \<noteq> []"
  shows "min_correct_required_of categories r \<le> select_count_of categories r"
    and "select_count_of categories r \<le> max_correct_possible_of categories r"
proof -
  let ?w = "max_correct_possible_of categories r - min_correct_required_of categories r + 1"
  have w: "0 < ?w" using range_nonempty [OF assms] by simp
  have "0 \<le> int (randint_draw r) mod ?w" using w by (rule pos_mod_sign)
  then show "min_correct_required_of categories r \<le> select_count_of categories r"
    by (simp add: select_count_of_def)
  have "int (randint_draw r) mod ?w < ?w" using w by (rule pos_mod_bound)
  then show "select_count_of categories r \<le> max_correct_possible_of categories r"
    by (simp add: select_count_of_def)
qed

lemma select_count_le_length:
  assumes "target_all_of categories r \<noteq> []"
  shows "select_count_of categories r \<le> int (length (target_all_of categories r))"
    and "1 \<le> select_count_of categories r" and "select_count_of categories r \<le> 4"
proof -
  have "max_correct_possible_of categories r \<le> int (length (target_all_of categories r))"
    and "max_correct_possible_of categories r \<le> 4"
    by (simp_all add: max_correct_possible_of_def)
  with select_count_range(2) [OF assms]
  show "select_count_of categories r \<le> int (length (target_all_of categories r))"
    and "select_count_of categories r \<le> 4" by linarith+
  have "1 \<le> min_correct_required_of categories r" by (simp add: min_correct_required_of_def)
  with select_count_range(1) [OF assms] show "1 \<le> select_count_of categories r" by linarith
qed

lemma length_target_files:
  assumes "target_all_of categories r \<noteq> []"
  shows "int (length (target_files_of categories r)) = select_count_of categories r"
proof -
  note b = select_count_le_length [OF assms]
  have "min (select_count_of categories r) (int (length (target_all_of categories r)))
          = select_count_of categories r" using b(1) by simp
  moreover have "nat (select_count_of categories r) \<le> length (target_all_of categories r)"
    using b(1) by linarith
  ultimately have "length (target_files_of categories r) = nat (select_count_of categories r)"
    by (simp add: target_files_of_def length_pick)
  then show ?thesis using b(2) by simp
qed

lemma needed_non_target_eq:
  assumes "target_all_of categories r \<noteq> []"
  shows "needed_non_target_of categories r = 6 - select_count_of categories r"
  by (simp add: needed_non_target_of_def length_target_files [OF assms])

lemma extra_count_nonneg:
  assumes "target_all_of categories r \<noteq> []"
  shows "0 \<le> extra_count_of categories r"
  using select_count_le_length [OF assms] needed_non_target_eq [OF assms]
  by (simp add: extra_count_of_def)

lemma api_captcha_at_eq:
  "api_captcha_at d categories r now active =
     (if categories = [] then Inl NoCategories
      else if target_all_of categories r = [] then Inl ValueError
      else if fallback categories r
              \<and> int (length (target_rest_of categories r)) < extra_count_of categories r
           then Inl ValueError
      else Inr (response_of d categories r,
                active(issued_id_of categories r \<mapsto> record_of d categories r)))"
proof (cases "categories = []")
  case True
  then show ?thesis by (simp add: api_captcha_at_def)
next
  case ne: False
  have ch: "random_choice (map fst categories) (choice_draw r)
              = Inr (target_category_of categories r)"
    using ne by (simp add: random_choice_def target_category_of_def)
  note folds = target_all_of_def [symmetric]
    max_correct_possible_of_def [symmetric] min_correct_required_of_def [symmetric]
    needed_non_target_of_def [symmetric] target_rest_of_def [symmetric]
    extra_count_of_def [symmetric]
  note outs = make_pow_challenge_at_eq response_of_def record_of_def issued_id_of_def
    first_loop_of_def second_loop_of_def
  show ?thesis
  proof (cases "target_all_of categories r = []")
    case True
    show ?thesis
      unfolding api_captcha_at_def Let_def
      using ne True range_empty [OF True]
      apply (simp add: ch folds)
      apply (simp add: random_randint_def folds)
      done
  next
    case nz: False
    have ri: "random_randint (min_correct_required_of categories r)
                (max_correct_possible_of categories r) (randint_draw r)
              = Inr (select_count_of categories r)"
      using range_nonempty [OF nz] by (simp add: random_randint_def select_count_of_def)
    have tf: "random_sample (target_all_of categories r)
                (min (select_count_of categories r) (int (length (target_all_of categories r))))
                (target_draws r)
              = Inr (target_files_of categories r)"
      using select_count_le_length [OF nz]
      by (simp add: random_sample_def target_files_of_def)
    have nn: "0 \<le> needed_non_target_of categories r"
      using select_count_le_length [OF nz] needed_non_target_eq [OF nz] by simp
    show ?thesis
    proof (cases "fallback categories r")
      case fb: True
      then have c: "int (length (non_target_of categories (target_category_of categories r)))
                      < needed_non_target_of categories r"
        by (simp add: fallback_def)
      have f: "fill_of categories r = map (Pair (target_category_of categories r))
                 (pick (target_rest_of categories r) (nat (extra_count_of categories r))
                    (fill_draws r))"
        using fb by (simp add: fill_of_def)
      show ?thesis
      proof (cases "int (length (target_rest_of categories r)) < extra_count_of categories r")
        case True
        then have rs: "random_sample (target_rest_of categories r)
                         (extra_count_of categories r) (fill_draws r) = Inl ValueError"
          by (simp add: random_sample_def)
        show ?thesis
          unfolding api_captcha_at_def Let_def
          using ne nz fb True
          apply (simp add: ch folds)
          apply (simp add: ri folds)
          apply (simp add: tf folds)
          apply (simp add: c rs folds)
          done
      next
        case False
        then have rs: "random_sample (target_rest_of categories r)
                         (extra_count_of categories r) (fill_draws r)
                       = Inr (pick (target_rest_of categories r)
                                (nat (extra_count_of categories r)) (fill_draws r))"
          using extra_count_nonneg [OF nz] by (simp add: random_sample_def)
        show ?thesis
          unfolding api_captcha_at_def Let_def
          using ne nz False
          apply (simp add: ch folds)
          apply (simp add: ri folds)
          apply (simp add: tf folds)
          apply (simp add: c rs f outs folds)
          done
      qed
    next
      case nf: False
      then have c: "\<not> int (length (non_target_of categories (target_category_of categories r)))
                      < needed_non_target_of categories r"
        by (simp add: fallback_def)
      have rs: "random_sample (non_target_of categories (target_category_of categories r))
                  (needed_non_target_of categories r) (fill_draws r)
                = Inr (fill_of categories r)"
        using nf c nn by (simp add: random_sample_def fill_of_def)
      show ?thesis
        unfolding api_captcha_at_def Let_def
        using ne nz nf
        apply (simp add: ch folds)
        apply (simp add: ri folds)
        apply (simp add: tf folds)
        apply (simp add: c rs outs folds)
        done
    qed
  qed
qed

lemma issuedD:
  assumes "api_captcha_at d categories r now active = Inr (resp, active')"
  shows "categories \<noteq> []" and "target_all_of categories r \<noteq> []"
    and "fallback categories r \<Longrightarrow>
           extra_count_of categories r \<le> int (length (target_rest_of categories r))"
    and "resp = response_of d categories r"
    and "active' = active(issued_id_of categories r \<mapsto> record_of d categories r)"
  using assms by (auto simp: api_captcha_at_eq split: if_splits)

lemma length_fill_of:
  assumes "api_captcha_at d categories r now active = Inr (resp, active')"
  shows "int (length (fill_of categories r))
           = (if fallback categories r then extra_count_of categories r
              else needed_non_target_of categories r)"
proof (cases "fallback categories r")
  case True
  note i = issuedD [OF assms]
  from i(3) [OF True] extra_count_nonneg [OF i(2)]
  have "nat (extra_count_of categories r) \<le> length (target_rest_of categories r)"
    and "int (nat (extra_count_of categories r)) = extra_count_of categories r" by linarith+
  then show ?thesis using True by (simp add: fill_of_def length_pick)
next
  case False
  note i = issuedD [OF assms]
  have nn: "0 \<le> needed_non_target_of categories r"
    using select_count_le_length [OF i(2)] needed_non_target_eq [OF i(2)] by simp
  from False have "needed_non_target_of categories r
             \<le> int (length (non_target_of categories (target_category_of categories r)))"
    by (simp add: fallback_def)
  with nn have "nat (needed_non_target_of categories r)
             \<le> length (non_target_of categories (target_category_of categories r))"
    and "int (nat (needed_non_target_of categories r)) = needed_non_target_of categories r"
    by linarith+
  then show ?thesis using False by (simp add: fill_of_def length_pick)
qed

lemma grid_at_most_six:
  assumes "api_captcha_at d categories r now active = Inr (resp, active')"
  shows "length (target_files_of categories r) + length (fill_of categories r) \<le> 6"
proof -
  have "extra_count_of categories r \<le> needed_non_target_of categories r"
    by (simp add: extra_count_of_def)
  with length_fill_of [OF assms]
  have "int (length (fill_of categories r)) \<le> 6 - int (length (target_files_of categories r))"
    by (simp add: needed_non_target_of_def split: if_splits)
  then show ?thesis by linarith
qed

lemma length_first_loop:
  assumes "api_captcha_at d categories r now active = Inr (resp, active')" and "uuids_ok r"
  shows "length (first_loop_of categories r) = length (target_files_of categories r)"
  using grid_at_most_six [OF assms(1)] assms(2)
  by (simp add: first_loop_of_def target_images_def uuids_ok_def)

lemma length_second_loop:
  assumes "api_captcha_at d categories r now active = Inr (resp, active')" and "uuids_ok r"
  shows "length (second_loop_of categories r) = length (fill_of categories r)"
proof -
  from grid_at_most_six [OF assms(1)] assms(2)
  have "length (fill_of categories r)
          \<le> length (uuids r) - length (target_files_of categories r)"
    unfolding uuids_ok_def by linarith
  then show ?thesis by (simp add: second_loop_of_def fill_images_def)
qed

lemma img_id_first_loop:
  assumes "api_captcha_at d categories r now active = Inr (resp, active')" and "uuids_ok r"
  shows "map img_id (first_loop_of categories r)
           = take (length (target_files_of categories r)) (uuids r)"
  using grid_at_most_six [OF assms(1)] assms(2)
  by (simp add: first_loop_of_def target_images_def uuids_ok_def list_eq_iff_nth_eq)

lemma images_of_response:
  "set (resp_images (response_of d categories r))
     = set (first_loop_of categories r) \<union> set (second_loop_of categories r)"
  "length (resp_images (response_of d categories r))
     = length (first_loop_of categories r) + length (second_loop_of categories r)"
proof -
  have m: "mset (resp_images (response_of d categories r))
             = mset (first_loop_of categories r @ second_loop_of categories r)"
    by (simp add: response_of_def mset_random_shuffle del: mset_append)
  from m have "set_mset (mset (resp_images (response_of d categories r)))
             = set_mset (mset (first_loop_of categories r @ second_loop_of categories r))"
    by (rule arg_cong)
  then show "set (resp_images (response_of d categories r))
     = set (first_loop_of categories r) \<union> set (second_loop_of categories r)" by simp
  from m have "size (mset (resp_images (response_of d categories r)))
             = size (mset (first_loop_of categories r @ second_loop_of categories r))"
    by (rule arg_cong)
  then show "length (resp_images (response_of d categories r))
     = length (first_loop_of categories r) + length (second_loop_of categories r)" by simp
qed

lemma target_in_catalog:
  assumes "wf_catalog categories" and "categories \<noteq> []"
  shows "(target_category_of categories r, target_all_of categories r) \<in> set categories"
proof -
  let ?i = "choice_draw r mod length categories"
  from assms(2) have i: "?i < length categories" by simp
  then have "categories ! ?i \<in> set categories" by (rule nth_mem)
  moreover have "fst (categories ! ?i) = target_category_of categories r"
    using i by (simp add: target_category_of_def)
  ultimately obtain files where m: "(target_category_of categories r, files) \<in> set categories"
    by (metis prod.collapse)
  from assms(1) have "distinct (map fst categories)" by (simp add: wf_catalog_def)
  with m have "map_of categories (target_category_of categories r) = Some files" by simp
  then have "target_all_of categories r = files"
    by (simp add: target_all_of_def categories_get_def)
  with m show ?thesis by simp
qed

lemma target_wf:
  assumes "wf_catalog categories" and "categories \<noteq> []"
  shows "distinct (target_all_of categories r)"
    and "CHR ''/'' \<notin> set (target_category_of categories r)"
    and "target_all_of categories r \<noteq> []"
  using target_in_catalog [OF assms] assms(1) by (auto simp: wf_catalog_def)

lemma target_files_subset:
  "set (target_files_of categories r) \<subseteq> set (target_all_of categories r)"
  by (simp add: target_files_of_def set_pick)

lemma length_target_rest:
  assumes "wf_catalog categories" and "categories \<noteq> []"
  shows "length (target_rest_of categories r)
           = length (target_all_of categories r) - length (target_files_of categories r)"
proof -
  let ?xs = "target_all_of categories r" and ?tf = "target_files_of categories r"
  have dx: "distinct ?xs" by (rule target_wf(1) [OF assms])
  then have dt: "distinct ?tf" by (simp add: target_files_of_def distinct_pick)
  have df: "distinct (filter (\<lambda>x. x \<notin> set ?tf) ?xs)" using dx by simp
  have "length (target_rest_of categories r) = card (set (filter (\<lambda>x. x \<notin> set ?tf) ?xs))"
    unfolding target_rest_of_def by (rule distinct_card [OF df, symmetric])
  also have "set (filter (\<lambda>x. x \<notin> set ?tf) ?xs) = set ?xs - set ?tf" by auto
  also have "card (set ?xs - set ?tf) = card (set ?xs) - card (set ?tf)"
    using target_files_subset by (simp add: card_Diff_subset)
  also have "\<dots> = length ?xs - length ?tf"
    using dx dt by (simp add: distinct_card)
  finally show ?thesis .
qed

text \<open>On a catalog as \<^verbatim>\<open>_discover_categories\<close> returns it, a puzzle is always issued.\<close>

lemma api_captcha_at_issues:
  assumes "wf_catalog categories" and "categories \<noteq> []"
  shows "api_captcha_at d categories r now active
           = Inr (response_of d categories r,
                  active(issued_id_of categories r \<mapsto> record_of d categories r))"
proof -
  note nz = target_wf(3) [OF assms]
  have "max 0 (int (length (target_all_of categories r))
               - int (length (target_files_of categories r)))
          = int (length (target_rest_of categories r))"
    using length_target_rest [OF assms, of r] by linarith
  then have "extra_count_of categories r \<le> int (length (target_rest_of categories r))"
    by (simp add: extra_count_of_def)
  then show ?thesis using assms(2) nz by (simp add: api_captcha_at_eq)
qed

lemma issued_id_nonempty:
  assumes "api_captcha_at d categories r now active = Inr (resp, active')" and "uuids_ok r"
  shows "resp_captcha_id resp \<noteq> []"
proof -
  from grid_at_most_six [OF assms(1)] assms(2)
  have "length (target_files_of categories r) + length (fill_of categories r) < length (uuids r)"
    unfolding uuids_ok_def by linarith
  then have "issued_id_of categories r \<in> set (uuids r)"
    unfolding issued_id_of_def by (rule nth_mem)
  with assms(2) have "issued_id_of categories r \<noteq> []" by (auto simp: uuids_ok_def)
  then show ?thesis using issuedD(4) [OF assms(1)] by (simp add: response_of_def)
qed

lemma issued_entry:
  assumes "api_captcha_at d categories r now active = Inr (resp, active')"
  shows "active' (resp_captcha_id resp) = Some (record_of d categories r)"
  using issuedD(4,5) [OF assms] by (simp add: response_of_def)

subsection \<open>Runs of \<^verbatim>\<open>api_captcha\<close> on the concrete catalogs\<close>

lemma pick_numeral:
  "pick xs (numeral k) draws =
     (if xs = [] then []
      else let i = (case draws of [] \<Rightarrow> 0 | d # _ \<Rightarrow> d) mod length xs
           in xs ! i # pick (take i xs @ drop (Suc i) xs) (pred_numeral k) (tl draws))"
  by (simp add: numeral_eq_Suc)

lemmas captcha_defs = api_captcha_def api_captcha_at_def Let_def random_choice_def
  random_randint_def random_sample_def random_shuffle_def categories_get_def non_target_of_def
  target_images_def fill_images_def make_pow_challenge_at_def issue_def PY_CAP_at_def
  DEFAULT_DIFFICULTY_def img_url_def replace_def pick_numeral

lemmas of_defs = target_category_of_def target_all_of_def max_correct_possible_of_def
  min_correct_required_of_def select_count_of_def target_files_of_def needed_non_target_of_def
  target_rest_of_def fallback_def extra_count_of_def fill_of_def categories_get_def
  non_target_of_def pick_numeral Let_def

lemma ex_uuids_ok: "uuids_ok ex_rand"
  by (simp add: uuids_ok_def ex_rand_def)

lemma ex_uuids_short_ok: "uuids_ok ex_rand_short"
  by (simp add: uuids_ok_def ex_rand_short_def)

lemma ex_wf: "wf_catalog ex_catalog"
  by (simp add: wf_catalog_def ex_catalog_def)

lemma ex_wf_one: "wf_catalog ex_catalog_one"
  by (simp add: wf_catalog_def ex_catalog_one_def)

lemma ex_wf_two: "wf_catalog ex_catalog_two"
  by (simp add: wf_catalog_def ex_catalog_two_def)

lemma ex_run: "api_captcha ex_catalog ex_rand 0 Map.empty = Inr (ex_response, ex_active)"
  by (simp add: captcha_defs ex_catalog_def ex_rand_def ex_active_def ex_record_def
        ex_response_def)

lemma ex_run0: "api_captcha_at 0 ex_catalog ex_rand 0 Map.empty = Inr (ex_response0, ex_active0)"
  by (simp add: captcha_defs ex_catalog_def ex_rand_def ex_active0_def ex_record0_def
        ex_response0_def ex_response_def)

lemma ex_run_one:
  "api_captcha ex_catalog_one ex_rand_short 0 Map.empty = Inr (ex_response_short, ex_active)"
  by (simp add: captcha_defs ex_catalog_one_def ex_rand_short_def ex_active_def ex_record_def
        ex_response_short_def)

lemma ex_run_two:
  "api_captcha ex_catalog_two ex_rand_short 0 Map.empty = Inr (ex_response_short, ex_active)"
  by (simp add: captcha_defs ex_catalog_two_def ex_rand_short_def ex_active_def ex_record_def
        ex_response_short_def)

lemma ex_values:
  "target_category_of ex_catalog ex_rand = ''cats_illusion''"
  "\<not> fallback ex_catalog ex_rand"
  "target_category_of ex_catalog_one ex_rand_short = ''cats''"
  "length (non_target_of ex_catalog_two ''cats'') = 3"
  "length (target_rest_of ex_catalog_two ex_rand_short) = 1"
  "needed_non_target_of ex_catalog_two ex_rand_short = 4"
  "length (non_target_of ex_catalog_one (target_category_of ex_catalog_one ex_rand_short)) = 0"
  "length (target_rest_of ex_catalog_one ex_rand_short) = 1"
  by (simp_all add: of_defs ex_catalog_def ex_rand_def ex_catalog_one_def ex_catalog_two_def
        ex_rand_short_def)

subsection \<open>C2: a challenge issued with difficulty 0\<close>

text \<open>
  The difficulty of an issued puzzle is the module's \<^verbatim>\<open>DEFAULT_DIFFICULTY\<close>: the response and
  the stored record both carry it.
\<close>

lemma issued_difficulty:
  assumes "api_captcha_at d categories r now active = Inr (resp, active')"
  shows "pow_difficulty_out (resp_pow resp) = d"
    and "\<exists>entry. active' (resp_captcha_id resp) = Some entry \<and> rec_difficulty entry = d"
proof -
  show "pow_difficulty_out (resp_pow resp) = d"
    using issuedD(4) [OF assms] by (simp add: response_of_def)
  have "rec_difficulty (record_of d categories r) = d" by (simp add: record_of_def)
  with issued_entry [OF assms]
  show "\<exists>entry. active' (resp_captcha_id resp) = Some entry \<and> rec_difficulty entry = d"
    by blast
qed

text \<open>
  C2. A challenge is issued with difficulty 0 by the server whose \<^verbatim>\<open>DEFAULT_DIFFICULTY\<close> is 0.
  For a puzzle issued there, the response and the stored record carry difficulty 0;
  \<^verbatim>\<open>api_verify\<close> reads the stored 0 as \<^verbatim>\<open>0 or DEFAULT_DIFFICULTY\<close>, which is 0 again, and
  \<^verbatim>\<open>PyCap.verify\<close> accepts every nonce, whatever the hash function returns. So, for a request
  that names the puzzle and brings any non-empty nonce, verification is decided by the
  selection alone: with as many distinct ids as \<open>correct_ids\<close> it answers whether the two sets
  are equal (and retires the puzzle); with another number it is a
  \<open>SelectionCountMismatch\<close>.
\<close>

theorem difficulty_zero_verifies:
  assumes "api_captcha_at 0 categories r now active = Inr (resp, active')" and "uuids_ok r"
    and "req_captcha_id req = Some (resp_captcha_id resp)"
    and "req_pow_nonce req = Some nonce" and "nonce \<noteq> []"
    and "now' \<le> 9999999999"
  shows "pow_difficulty_out (resp_pow resp) = 0
         \<and> (\<exists>entry. active' (resp_captcha_id resp) = Some entry \<and> rec_difficulty entry = 0
               \<and> verify_with hash \<lparr>challenge = pow_challenge entry, difficulty = rec_difficulty entry,
                                      expires_at = 9999999999\<rparr> nonce now' = (True, ''ok'')
               \<and> api_verify_at 0 hash active' req now' =
                   (if card (set (req_selected_ids req)) = card (correct_ids entry)
                    then (Inr (set (req_selected_ids req) = correct_ids entry),
                          active'(resp_captcha_id resp := None))
                    else (Inl (SelectionCountMismatch (card (correct_ids entry))
                                 (card (set (req_selected_ids req)))), active')))"
proof -
  note ne = issued_id_nonempty [OF assms(1,2)]
  note e = issued_entry [OF assms(1)]
  have d0: "rec_difficulty (record_of 0 categories r) = 0" by (simp add: record_of_def)
  have p0: "pow_difficulty_out (resp_pow resp) = 0"
    using issuedD(4) [OF assms(1)] by (simp add: response_of_def)
  have v: "verify_with hash \<lparr>challenge = pow_challenge (record_of 0 categories r),
                               difficulty = rec_difficulty (record_of 0 categories r),
                               expires_at = 9999999999\<rparr> nonce now' = (True, ''ok'')"
    using assms(6) d0 by (simp add: verify_with_def)
  have a: "api_verify_at 0 hash active' req now' =
             (if card (set (req_selected_ids req)) = card (correct_ids (record_of 0 categories r))
              then (Inr (set (req_selected_ids req) = correct_ids (record_of 0 categories r)),
                    active'(resp_captcha_id resp := None))
              else (Inl (SelectionCountMismatch (card (correct_ids (record_of 0 categories r)))
                           (card (set (req_selected_ids req)))), active'))"
    using ne e d0 assms(3,4,5,6) by (simp add: api_verify_at_def verify_with_def)
  from p0 e d0 v a show ?thesis by blast
qed

theorem difficulty_zero_verifies_witness:
  "api_captcha_at 0 ex_catalog ex_rand 0 Map.empty = Inr (ex_response0, ex_active0)
   \<and> uuids_ok ex_rand
   \<and> req_captcha_id ex_req_bad_pow = Some (resp_captcha_id ex_response0)
   \<and> req_pow_nonce ex_req_bad_pow = Some ''1'' \<and> ''1'' \<noteq> [] \<and> (1000::real) \<le> 9999999999
   \<and> pow_difficulty_out (resp_pow ex_response0) = 0
   \<and> leading_zeros (sha256_hex (ex_token @ '':'' @ ''1'')) = 0
   \<and> api_verify_at 0 PyCap_hash ex_active0 ex_req_bad_pow 1000 = (Inr True, Map.empty)"
proof -
  have r: "req_captcha_id ex_req_bad_pow = Some (resp_captcha_id ex_response0)"
    and n: "req_pow_nonce ex_req_bad_pow = Some ''1''"
    by (simp_all add: ex_req_bad_pow_def ex_response0_def ex_response_def)
  have t: "(1000::real) \<le> 9999999999" by simp
  have z: "leading_zeros (sha256_hex (ex_token @ '':'' @ ''1'')) = 0"
    by (simp add: ex_token_def digest_bad leading_zeros_def)
  from difficulty_zero_verifies [OF ex_run0 ex_uuids_ok r n _ t, of PyCap_hash]
  have "api_verify_at 0 PyCap_hash ex_active0 ex_req_bad_pow 1000 = (Inr True, Map.empty)"
    and "pow_difficulty_out (resp_pow ex_response0) = 0"
    by (auto simp: ex_active0_def ex_record0_def ex_req_bad_pow_def ex_response0_def
        ex_response_def)
  with r n t z ex_run0 ex_uuids_ok show ?thesis by simp
qed

subsection \<open>C7: the selection count and the correct ids\<close>

text \<open>
  C7. For every issued puzzle, \<^verbatim>\<open>select_count\<close> lies between \<open>min_correct\<close> and
  \<open>max_correct\<close>, where \<open>max_correct = min(4, number of images of the target category, 6)\<close>
  and \<open>min_correct\<close> is 2, or 1 when \<open>max_correct\<close> is below 2; the stored \<open>correct_ids\<close>
  is a subset of the ids of the returned grid and has exactly \<^verbatim>\<open>select_count\<close> members.
  The bounds come from the arguments \<^verbatim>\<open>api_captcha\<close> gives to \<^verbatim>\<open>random.randint\<close> and
  \<^verbatim>\<open>random.sample\<close>; the one assumption on the drawn values is that the \<^verbatim>\<open>uuid4\<close> values
  are distinct.
\<close>

theorem issued_select_count:
  assumes "api_captcha categories r now active = Inr (resp, active')"
    and "uuids_ok r"
  shows "let available = int (length (categories_get categories (target_category_of categories r)));
             max_correct = min 4 (min available 6);
             min_correct = (if 2 \<le> max_correct then 2 else 1)
         in min_correct \<le> int (resp_select_count resp)
            \<and> int (resp_select_count resp) \<le> max_correct
            \<and> (\<exists>entry. active' (resp_captcha_id resp) = Some entry
                  \<and> correct_ids entry \<subseteq> img_id ` set (resp_images resp)
                  \<and> card (correct_ids entry) = resp_select_count resp)"
proof -
  let ?d = DEFAULT_DIFFICULTY
  have run: "api_captcha_at ?d categories r now active = Inr (resp, active')"
    using assms(1) by (simp add: api_captcha_def)
  note ok = assms(2)
  note d = issuedD [OF run]
  let ?n = "length (target_files_of categories r)"
  have sc: "int (resp_select_count resp) = select_count_of categories r"
    using d(4) length_target_files [OF d(2)] by (simp add: response_of_def)
  note rg = select_count_range [OF d(2)]
  have entry: "active' (resp_captcha_id resp) = Some (record_of ?d categories r)"
    using run by (rule issued_entry)
  have ids: "correct_ids (record_of ?d categories r) = set (take ?n (uuids r))"
    by (simp add: record_of_def img_id_first_loop [OF run ok] del: set_map)
  have sub: "correct_ids (record_of ?d categories r) \<subseteq> img_id ` set (resp_images resp)"
    using d(4) images_of_response(1) [of ?d categories r]
    by (auto simp: record_of_def)
  have n: "?n \<le> length (uuids r)"
    using grid_at_most_six [OF run] ok unfolding uuids_ok_def by linarith
  have "distinct (take ?n (uuids r))" using ok by (simp add: uuids_ok_def)
  then have "card (correct_ids (record_of ?d categories r)) = length (take ?n (uuids r))"
    unfolding ids by (rule distinct_card)
  also have "\<dots> = ?n" using n by simp
  finally have card: "card (correct_ids (record_of ?d categories r)) = resp_select_count resp"
    using d(4) by (simp add: response_of_def)
  show ?thesis
    using sc rg entry sub card
    by (simp add: Let_def min_correct_required_of_def max_correct_possible_of_def
        target_all_of_def)
qed

theorem issued_select_count_witness:
  "api_captcha ex_catalog ex_rand 0 Map.empty = Inr (ex_response, ex_active)
   \<and> uuids_ok ex_rand
   \<and> (2::int) \<le> int (resp_select_count ex_response)
   \<and> int (resp_select_count ex_response) \<le> 3
   \<and> ex_active (resp_captcha_id ex_response) = Some ex_record
   \<and> correct_ids ex_record \<subseteq> img_id ` set (resp_images ex_response)
   \<and> card (correct_ids ex_record) = resp_select_count ex_response"
  using issued_select_count [OF ex_run ex_uuids_ok] ex_run ex_uuids_ok
  by (simp add: ex_response_def ex_record_def ex_active_def)

subsection \<open>C8: the size of the grid\<close>

text \<open>
  C8 as stated (fewer than 6 entries only when the distractor pool and the
  target-category fallback together cannot fill the grid) fails. On \<open>ex_catalog_two\<close>
  two of three cat images are sampled and four slots are left; the three dog images and
  the remaining cat image would fill them, but the fallback drops the dogs and the grid
  has 3 entries.
\<close>

theorem grid_size_counterexample:
  "api_captcha ex_catalog_two ex_rand_short 0 Map.empty = Inr (ex_response_short, ex_active)
   \<and> uuids_ok ex_rand_short \<and> wf_catalog ex_catalog_two
   \<and> length (resp_images ex_response_short) = 3
   \<and> length (non_target_of ex_catalog_two ''cats'') = 3
   \<and> length (target_rest_of ex_catalog_two ex_rand_short) = 1
   \<and> needed_non_target_of ex_catalog_two ex_rand_short = 4
   \<and> \<not> together_cannot_fill ex_catalog_two ex_rand_short"
  by (simp add: ex_run_two ex_uuids_short_ok ex_wf_two)
    (simp add: together_cannot_fill_def of_defs ex_catalog_two_def ex_rand_short_def
      ex_response_short_def)

text \<open>
  C8, amended. For every issued puzzle the grid has at most 6 entries, and it has fewer
  than 6 only when the images outside the target category are fewer than the
  \<open>6 - select_count\<close> slots left and the unsampled images of the target category are
  fewer than that too: the fallback fills from the target category alone and does not
  use the images outside it.
\<close>

theorem issued_grid_size:
  assumes "api_captcha categories r now active = Inr (resp, active')"
    and "uuids_ok r" and "wf_catalog categories"
  shows "length (resp_images resp) \<le> 6
         \<and> (length (resp_images resp) < 6 \<longrightarrow>
              int (length (non_target_of categories (target_category_of categories r)))
                < 6 - int (resp_select_count resp)
              \<and> int (length (target_rest_of categories r)) < 6 - int (resp_select_count resp))"
proof -
  let ?d = DEFAULT_DIFFICULTY
  have run: "api_captcha_at ?d categories r now active = Inr (resp, active')"
    using assms(1) by (simp add: api_captcha_def)
  note ok = assms(2)
  note d = issuedD [OF run]
  let ?n = "length (target_files_of categories r)" and ?m = "length (fill_of categories r)"
  have len: "length (resp_images resp) = ?n + ?m"
    using d(4) images_of_response(2) [of ?d categories r]
      length_first_loop [OF run ok] length_second_loop [OF run ok] by simp
  have sc: "resp_select_count resp = ?n"
    using d(4) by (simp add: response_of_def)
  have nd: "needed_non_target_of categories r = 6 - int ?n"
    by (simp add: needed_non_target_of_def)
  have rest: "int (length (target_rest_of categories r))
                = max 0 (int (length (target_all_of categories r)) - int ?n)"
    using length_target_rest [OF assms(3) d(1), of r] by linarith
  note m = length_fill_of [OF run]
  show ?thesis
  proof (cases "fallback categories r")
    case True
    with m have m': "int ?m = min (6 - int ?n) (int (length (target_rest_of categories r)))"
      by (simp add: extra_count_of_def nd rest)
    from True have pool: "int (length (non_target_of categories (target_category_of categories r)))
                 < 6 - int ?n"
      by (simp add: fallback_def nd)
    show ?thesis using m' pool len sc by (auto simp: min_def split: if_splits)
  next
    case False
    with m have "int ?m = 6 - int ?n" by (simp add: nd)
    then show ?thesis using len by simp
  qed
qed

theorem issued_grid_size_witness:
  "api_captcha ex_catalog ex_rand 0 Map.empty = Inr (ex_response, ex_active)
   \<and> uuids_ok ex_rand \<and> wf_catalog ex_catalog
   \<and> length (resp_images ex_response) = 6
   \<and> api_captcha ex_catalog_one ex_rand_short 0 Map.empty = Inr (ex_response_short, ex_active)
   \<and> uuids_ok ex_rand_short \<and> wf_catalog ex_catalog_one
   \<and> length (resp_images ex_response_short) < 6
   \<and> int (length (non_target_of ex_catalog_one (target_category_of ex_catalog_one ex_rand_short)))
        < 6 - int (resp_select_count ex_response_short)
   \<and> int (length (target_rest_of ex_catalog_one ex_rand_short))
        < 6 - int (resp_select_count ex_response_short)"
  using issued_grid_size [OF ex_run ex_uuids_ok ex_wf]
    issued_grid_size [OF ex_run_one ex_uuids_short_ok ex_wf_one]
    ex_run ex_uuids_ok ex_wf ex_run_one ex_uuids_short_ok ex_wf_one
  by (simp add: ex_response_def ex_response_short_def)

subsection \<open>C4: which grid entries are the correct ones\<close>

lemma img_url_category:
  assumes "img_url c f = img_url c' f'" and "CHR ''/'' \<notin> set c" and "CHR ''/'' \<notin> set c'"
  shows "c = c'"
proof -
  have tw: "takeWhile (\<lambda>x. x \<noteq> CHR ''/'') (d @ CHR ''/'' # g) = d" if "CHR ''/'' \<notin> set d" for d g
    using that by (induction d) auto
  from assms(1) have "c @ CHR ''/'' # f = c' @ CHR ''/'' # f'" by (simp add: img_url_def)
  then have "takeWhile (\<lambda>x. x \<noteq> CHR ''/'') (c @ CHR ''/'' # f)
               = takeWhile (\<lambda>x. x \<noteq> CHR ''/'') (c' @ CHR ''/'' # f')" by simp
  then show ?thesis using tw [OF assms(2)] tw [OF assms(3)] by simp
qed

lemma first_loop_mem:
  assumes "img \<in> set (first_loop_of categories r)"
  shows "img_id img \<in> set (take (length (target_files_of categories r)) (uuids r))"
    and "from_category categories (target_category_of categories r) img"
proof -
  from assms obtain i f where
    z: "(i, f) \<in> set (zip (take (length (target_files_of categories r)) (uuids r))
                        (target_files_of categories r))"
    and img: "img = \<lparr>img_id = i, url = img_url (target_category_of categories r) f\<rparr>"
    by (auto simp: first_loop_of_def target_images_def)
  from z have i: "i \<in> set (take (length (target_files_of categories r)) (uuids r))"
    and f: "f \<in> set (target_files_of categories r)"
    by (auto dest: set_zip_leftD set_zip_rightD)
  show "img_id img \<in> set (take (length (target_files_of categories r)) (uuids r))"
    using i img by simp
  from f target_files_subset [of categories r]
  have "f \<in> set (categories_get categories (target_category_of categories r))"
    by (auto simp: target_all_of_def)
  then show "from_category categories (target_category_of categories r) img"
    using img by (auto simp: from_category_def)
qed

lemma second_loop_mem:
  assumes "img \<in> set (second_loop_of categories r)"
  obtains i cat f where "img = \<lparr>img_id = i, url = img_url cat f\<rparr>"
    and "i \<in> set (drop (length (target_files_of categories r)) (uuids r))"
    and "(cat, f) \<in> set (fill_of categories r)"
proof -
  from assms obtain i p where
    z: "(i, p) \<in> set (zip (take (length (fill_of categories r))
                             (drop (length (target_files_of categories r)) (uuids r)))
                        (fill_of categories r))"
    and img: "img = \<lparr>img_id = i, url = img_url (fst p) (snd p)\<rparr>"
    by (auto simp: second_loop_of_def fill_images_def split_beta)
  from z have "i \<in> set (take (length (fill_of categories r))
                          (drop (length (target_files_of categories r)) (uuids r)))"
    and p: "p \<in> set (fill_of categories r)"
    by (auto dest: set_zip_leftD set_zip_rightD)
  then have "i \<in> set (drop (length (target_files_of categories r)) (uuids r))"
    by (auto dest: in_set_takeD)
  with img p that [of i "fst p" "snd p"] show thesis by simp
qed

lemma non_target_mem:
  assumes "(cat, f) \<in> set (non_target_of categories t)"
  shows "cat \<noteq> t" and "\<exists>files. (cat, files) \<in> set categories"
  using assms by (auto simp: non_target_of_def split: if_splits)

lemma fill_not_fallback:
  assumes "\<not> fallback categories r"
  shows "set (fill_of categories r) \<subseteq> set (non_target_of categories (target_category_of categories r))"
  using assms by (simp add: fill_of_def set_pick)

lemma fill_fallback:
  assumes "fallback categories r" and "(cat, f) \<in> set (fill_of categories r)"
  shows "cat = target_category_of categories r" and "f \<in> set (target_all_of categories r)"
proof -
  have "set (pick (target_rest_of categories r) (nat (extra_count_of categories r)) (fill_draws r))
          \<subseteq> set (target_rest_of categories r)" by (rule set_pick)
  also have "\<dots> \<subseteq> set (target_all_of categories r)" by (auto simp: target_rest_of_def)
  finally have sub: "set (pick (target_rest_of categories r) (nat (extra_count_of categories r))
                            (fill_draws r)) \<subseteq> set (target_all_of categories r)" .
  from assms show "cat = target_category_of categories r"
    by (auto simp: fill_of_def)
  from assms sub show "f \<in> set (target_all_of categories r)"
    by (auto simp: fill_of_def)
qed

lemma take_drop_disjoint:
  assumes "distinct xs"
  shows "set (take n xs) \<inter> set (drop n xs) = {}"
  using assms distinct_append [of "take n xs" "drop n xs"] by simp

text \<open>
  C4 as stated (every grid image whose file comes from the target category is in
  \<open>correct_ids\<close>, also when the fallback fills the grid from the target category) fails.
  On \<open>ex_catalog_one\<close> the grid shows \<^verbatim>\<open>/images/cats/c.png\<close>, a file of the target category
  \<^verbatim>\<open>cats\<close>, under the id \<^verbatim>\<open>u3\<close>, and \<^verbatim>\<open>u3\<close> is not among the stored correct ids.
\<close>

theorem correct_ids_counterexample:
  "api_captcha ex_catalog_one ex_rand_short 0 Map.empty = Inr (ex_response_short, ex_active)
   \<and> uuids_ok ex_rand_short \<and> wf_catalog ex_catalog_one
   \<and> target_category_of ex_catalog_one ex_rand_short = ''cats''
   \<and> \<lparr>img_id = ''u3'', url = ''/images/cats/c.png''\<rparr> \<in> set (resp_images ex_response_short)
   \<and> from_category ex_catalog_one ''cats'' \<lparr>img_id = ''u3'', url = ''/images/cats/c.png''\<rparr>
   \<and> ex_active (resp_captcha_id ex_response_short) = Some ex_record
   \<and> ''u3'' \<notin> correct_ids ex_record"
  by (simp add: ex_run_one ex_uuids_short_ok ex_wf_one)
    (simp add: from_category_def categories_get_def img_url_def target_category_of_def
      ex_catalog_one_def ex_rand_short_def ex_response_short_def ex_active_def ex_record_def)

text \<open>
  C4, amended. For every issued puzzle, every member of the stored \<open>correct_ids\<close> is the
  id of a grid entry whose file comes from the target category; and when the images
  outside the target category suffice to fill the grid (the fallback is not taken), every
  grid entry whose file comes from the target category is in \<open>correct_ids\<close>.
\<close>

theorem issued_correct_ids:
  assumes "api_captcha categories r now active = Inr (resp, active')"
    and "uuids_ok r" and "wf_catalog categories"
  shows "\<exists>entry. active' (resp_captcha_id resp) = Some entry
           \<and> (\<forall>i \<in> correct_ids entry. \<exists>img \<in> set (resp_images resp).
                 img_id img = i \<and> from_category categories (target_category_of categories r) img)
           \<and> (\<not> fallback categories r \<longrightarrow>
                (\<forall>img \<in> set (resp_images resp).
                   from_category categories (target_category_of categories r) img
                   \<longrightarrow> img_id img \<in> correct_ids entry))"
proof -
  let ?d = DEFAULT_DIFFICULTY
  have run: "api_captcha_at ?d categories r now active = Inr (resp, active')"
    using assms(1) by (simp add: api_captcha_def)
  note wf = assms(3)
  note d = issuedD [OF run]
  let ?t = "target_category_of categories r"
  let ?C = "correct_ids (record_of ?d categories r)"
  have entry: "active' (resp_captcha_id resp) = Some (record_of ?d categories r)"
    using run by (rule issued_entry)
  have imgs: "set (resp_images resp)
                = set (first_loop_of categories r) \<union> set (second_loop_of categories r)"
    using d(4) images_of_response(1) [of ?d categories r] by simp
  have C': "?C = img_id ` set (first_loop_of categories r)"
    by (simp add: record_of_def)
  have a: "\<forall>i \<in> ?C. \<exists>img \<in> set (resp_images resp). img_id img = i \<and> from_category categories ?t img"
  proof
    fix i assume "i \<in> ?C"
    then obtain img where m: "img \<in> set (first_loop_of categories r)" and i: "img_id img = i"
      unfolding C' by auto
    from first_loop_mem(2) [OF m] m i imgs
    show "\<exists>img \<in> set (resp_images resp). img_id img = i \<and> from_category categories ?t img"
      by auto
  qed
  have b: "\<forall>img \<in> set (resp_images resp). from_category categories ?t img \<longrightarrow> img_id img \<in> ?C"
    if nf: "\<not> fallback categories r"
  proof (intro ballI impI)
    fix img assume m: "img \<in> set (resp_images resp)" and ft: "from_category categories ?t img"
    show "img_id img \<in> ?C"
    proof (cases "img \<in> set (first_loop_of categories r)")
      case True
      then show ?thesis unfolding C' by auto
    next
      case False
      with m imgs have "img \<in> set (second_loop_of categories r)" by auto
      then obtain i cat f where img: "img = \<lparr>img_id = i, url = img_url cat f\<rparr>"
        and cf: "(cat, f) \<in> set (fill_of categories r)"
        by (rule second_loop_mem)
      from cf fill_not_fallback [OF nf]
      have nt: "(cat, f) \<in> set (non_target_of categories ?t)" by auto
      from non_target_mem [OF nt] obtain files where ne: "cat \<noteq> ?t"
        and mem: "(cat, files) \<in> set categories" by auto
      from mem wf have s1: "CHR ''/'' \<notin> set cat" by (auto simp: wf_catalog_def)
      from ft img obtain f' where "img_url cat f = img_url ?t f'"
        by (auto simp: from_category_def)
      from img_url_category [OF this s1 target_wf(2) [OF wf d(1)]] ne
      show ?thesis by simp
    qed
  qed
  from entry a b show ?thesis by blast
qed

theorem issued_correct_ids_witness:
  "api_captcha ex_catalog ex_rand 0 Map.empty = Inr (ex_response, ex_active)
   \<and> uuids_ok ex_rand \<and> wf_catalog ex_catalog
   \<and> ex_active (resp_captcha_id ex_response) = Some ex_record
   \<and> target_category_of ex_catalog ex_rand = ''cats_illusion''
   \<and> \<not> fallback ex_catalog ex_rand
   \<and> img_id ` {img \<in> set (resp_images ex_response).
                    from_category ex_catalog ''cats_illusion'' img}
       = correct_ids ex_record"
proof -
  have nf: "\<not> fallback ex_catalog ex_rand"
    by (simp add: of_defs ex_catalog_def ex_rand_def)
  have e: "ex_active (resp_captcha_id ex_response) = Some ex_record"
    by (simp add: ex_active_def ex_response_def)
  have t: "target_category_of ex_catalog ex_rand = ''cats_illusion''"
    by (simp add: target_category_of_def ex_catalog_def ex_rand_def)
  from issued_correct_ids [OF ex_run ex_uuids_ok ex_wf] nf e
  have "img_id ` {img \<in> set (resp_images ex_response).
                    from_category ex_catalog (target_category_of ex_catalog ex_rand) img}
          = correct_ids ex_record"
    by auto
  then show ?thesis using ex_run ex_uuids_ok ex_wf nf e t by simp
qed

text \<open>The entries the fallback adds: in the grid, from the target category, not correct.\<close>

lemma fallback_entries_not_correct:
  assumes "api_captcha_at d categories r now active = Inr (resp, active')"
    and ok: "uuids_ok r" and fb: "fallback categories r"
    and m: "img \<in> set (second_loop_of categories r)"
  shows "img \<in> set (resp_images resp)"
    and "from_category categories (target_category_of categories r) img"
    and "img_id img \<notin> correct_ids (record_of d categories r)"
proof -
  note i = issuedD [OF assms(1)]
  let ?t = "target_category_of categories r"
  let ?C = "correct_ids (record_of d categories r)"
  have imgs: "set (resp_images resp)
                = set (first_loop_of categories r) \<union> set (second_loop_of categories r)"
    using i(4) images_of_response(1) [of d categories r] by simp
  have C: "?C = set (take (length (target_files_of categories r)) (uuids r))"
    by (simp add: record_of_def img_id_first_loop [OF assms(1) ok] del: set_map)
  from m obtain j cat f where img: "img = \<lparr>img_id = j, url = img_url cat f\<rparr>"
    and j: "j \<in> set (drop (length (target_files_of categories r)) (uuids r))"
    and cf: "(cat, f) \<in> set (fill_of categories r)"
    by (rule second_loop_mem)
  from fill_fallback [OF fb cf] have cat: "cat = ?t"
    and f: "f \<in> set (categories_get categories ?t)"
    by (simp_all add: target_all_of_def)
  have dist: "distinct (uuids r)" using ok by (simp add: uuids_ok_def)
  from take_drop_disjoint [OF dist, of "length (target_files_of categories r)"] j
  have "j \<notin> ?C" unfolding C by auto
  with m imgs img cat f
  show "img \<in> set (resp_images resp)"
    and "from_category categories ?t img" and "img_id img \<notin> ?C"
    by (auto simp: from_category_def)
qed

subsection \<open>C3: expiry\<close>

text \<open>
  C3 as stated (a verification attempt after the issued challenge's \<open>expires_at\<close> fails
  with \<^verbatim>\<open>"Challenge expired"\<close>) fails. The puzzle issued at time 0 carries a PoW challenge
  that \<^verbatim>\<open>PyCap.issue\<close> stamps with \<open>expires_at = 180\<close>; \<^verbatim>\<open>api_verify\<close> at time 1000, with
  the right selection and a nonce that solves the PoW, succeeds.
\<close>

theorem expiry_counterexample:
  "api_captcha ex_catalog ex_rand 0 Map.empty = Inr (ex_response, ex_active)
   \<and> expires_at (issue PY_CAP (token_hex ex_rand) 0) = 180
   \<and> (180::real) < 1000
   \<and> api_verify ex_active ex_req_good 1000 = (Inr True, Map.empty)"
  by (simp add: ex_run api_verify_run_good) (simp add: issue_def PY_CAP_def PY_CAP_at_def)

text \<open>
  C3, amended. \<^verbatim>\<open>PyCap.verify\<close> fails with \<^verbatim>\<open>"Challenge expired"\<close> whenever the clock is
  past the \<open>expires_at\<close> of the challenge it is given, whatever the nonce. \<^verbatim>\<open>api_verify\<close>
  does not keep the issued \<open>expires_at\<close>: it rebuilds the challenge with
  \<open>expires_at = 9999999999\<close>, so a call that passes the count and nonce checks fails with
  \<^verbatim>\<open>"Challenge expired"\<close> exactly when the clock is past 9999999999.
\<close>

theorem expiry_checked_by_verify:
  "(now > expires_at ch \<longrightarrow> verify ch nonce now = (False, ''Challenge expired''))
   \<and> (active cid = Some entry \<and> cid \<noteq> [] \<and> req_captcha_id req = Some cid
       \<and> card (set (req_selected_ids req)) = card (correct_ids entry)
       \<and> req_pow_nonce req = Some nonce' \<and> nonce' \<noteq> []
       \<longrightarrow> (fst (api_verify active req now') = Inl (PowRejected ''Challenge expired'')
            \<longleftrightarrow> now' > 9999999999))"
  by (simp add: verify_def verify_with_def api_verify_def api_verify_with_def api_verify_at_def
        Let_def)

theorem expiry_checked_by_verify_witness:
  "(1000::real) > expires_at ex_challenge
   \<and> verify ex_challenge ''445142'' 1000 = (False, ''Challenge expired'')
   \<and> ex_active ''cid'' = Some ex_record \<and> ''cid'' \<noteq> []
   \<and> req_captcha_id ex_req_good = Some ''cid''
   \<and> card (set (req_selected_ids ex_req_good)) = card (correct_ids ex_record)
   \<and> req_pow_nonce ex_req_good = Some ''445142'' \<and> ''445142'' \<noteq> []
   \<and> fst (api_verify ex_active ex_req_good 10000000000) = Inl (PowRejected ''Challenge expired'')
   \<and> fst (api_verify ex_active ex_req_good 1000) \<noteq> Inl (PowRejected ''Challenge expired'')"
  using expiry_checked_by_verify [where now = 1000 and ch = ex_challenge and nonce = "''445142''"
          and active = ex_active and cid = "''cid''" and entry = ex_record
          and req = ex_req_good and nonce' = "''445142''" and now' = 10000000000]
        expiry_checked_by_verify [where now = 1000 and ch = ex_challenge and nonce = "''445142''"
          and active = ex_active and cid = "''cid''" and entry = ex_record
          and req = ex_req_good and nonce' = "''445142''" and now' = 1000]
  by (simp add: ex_challenge_def ex_active_def ex_record_def ex_req_good_def)

end
